theory Spec2Isabelle
  imports Main "HOL-Library.AList"
begin

section \<open>JavaScript values\<close>

text \<open>
  The generator of \<^verbatim>\<open>src/DefinitionGenerator.ts\<close> builds plain JavaScript objects. A
  value is a JSON tree; an object is an association list from property names to values,
  kept in insertion order. A property that is absent (\<^verbatim>\<open>undefined\<close>) has no entry.
  Numbers are payload only (the generator never computes with them). JavaScript
  enumerates keys that are array indices before the others; the properties below read
  objects by key and do not depend on the order of enumeration.
\<close>

datatype json =
    JNull
  | JBool bool
  | JNum int
  | JStr string
  | JArr "json list"
  | JObj "(string \<times> json) list"

text \<open>What the generator throws: the one explicit \<^verbatim>\<open>throw new Error(...)\<close> of
  \<^verbatim>\<open>getRequestBodiesFromConfig\<close>, and the \<^verbatim>\<open>TypeError\<close> JavaScript raises when a
  property is read from \<^verbatim>\<open>undefined\<close> or \<^verbatim>\<open>null\<close>.\<close>

datatype error = RequiredRequestModels | TypeError

text \<open>JavaScript truthiness of a value, as tested by \<^verbatim>\<open>if (x)\<close>, \<^verbatim>\<open>x || d\<close>
  and \<^verbatim>\<open>x ? a : b\<close>.\<close>

fun truthy :: "json \<Rightarrow> bool" where
  "truthy JNull = False"
| "truthy (JBool b) = b"
| "truthy (JNum n) = (n \<noteq> 0)"
| "truthy (JStr s) = (s \<noteq> [])"
| "truthy (JArr xs) = True"
| "truthy (JObj kvs) = True"

text \<open>Property read \<^verbatim>\<open>o[k]\<close> (\<open>None\<close> is \<^verbatim>\<open>undefined\<close>), property write
  \<^verbatim>\<open>o[k] = v\<close> and \<^verbatim>\<open>delete o[k]\<close> on the member list of an object.\<close>

fun get :: "string \<Rightarrow> json \<Rightarrow> json option" where
  "get k (JObj kvs) = map_of kvs k"
| "get k v = None"

definition set_prop :: "string \<Rightarrow> json \<Rightarrow> (string \<times> json) list \<Rightarrow> (string \<times> json) list" where
  "set_prop k v kvs = AList.update k v kvs"

definition delete_prop :: "string \<Rightarrow> (string \<times> json) list \<Rightarrow> (string \<times> json) list" where
  "delete_prop k kvs = AList.delete k kvs"

text \<open>\<^verbatim>\<open>String.prototype.startsWith\<close> and \<^verbatim>\<open>String.prototype.toLowerCase\<close>; the
  latter on the ASCII letters, which is all an HTTP method name has.\<close>

definition startsWith :: "string \<Rightarrow> string \<Rightarrow> bool" where
  "startsWith s p = (take (length p) s = p)"

definition lower_char :: "char \<Rightarrow> char" where
  "lower_char c =
     (let n = (of_char c :: nat) in if 65 \<le> n \<and> n \<le> 90 then char_of (n + 32) else c)"

definition toLowerCase :: "string \<Rightarrow> string" where
  "toLowerCase s = map lower_char s"

section \<open>The helpers of \<^verbatim>\<open>utils.ts\<close>\<close>

text \<open>Modelled from the spec: \<^verbatim>\<open>clone\<close> of \<^verbatim>\<open>src/utils.ts\<close> is not among the sources.
  The spec calls it a deep copy: every array and object of the tree is rebuilt.\<close>

fun clone :: "json \<Rightarrow> json" where
  "clone (JArr xs) = JArr (map clone xs)"
| "clone (JObj kvs) = JObj (map (\<lambda>(k, v). (k, clone v)) kvs)"
| "clone v = v"

text \<open>Modelled from the spec: \<^verbatim>\<open>merge\<close> of \<^verbatim>\<open>src/utils.ts\<close> is not among the sources.
  The spec's law: for two objects sharing a key the values are merged key by key,
  recursively; a key present in only one side is preserved; a scalar or array leaf of
  the later argument replaces what the earlier one had. The first argument is the target
  the source mutates; the result is its new value.\<close>

fun merge :: "json \<Rightarrow> json \<Rightarrow> json"
  and merge_members :: "(string \<times> json) list \<Rightarrow> (string \<times> json) list \<Rightarrow> (string \<times> json) list" where
  "merge (JObj t) (JObj s) = JObj (merge_members t s)"
| "merge t s = s"
| "merge_members t [] = t"
| "merge_members t ((k, v) # s) =
     merge_members
       (case map_of t k of
          None \<Rightarrow> t @ [(k, v)]
        | Some old \<Rightarrow> set_prop k (merge old v) t)
       s"

text \<open>Modelled from the spec: \<^verbatim>\<open>isIterable\<close> of \<^verbatim>\<open>src/utils.ts\<close> is not among the
  sources. The spec iterates over every declared model: a declared list is iterable, an
  absent one is not.\<close>

definition isIterable :: "'a list option \<Rightarrow> bool" where
  "isIterable xs = (xs \<noteq> None)"

section \<open>Schema cleaning\<close>

text \<open>\<^verbatim>\<open>cleanSchema\<close>: clone, then \<^verbatim>\<open>if (cleanedSchema.$schema) delete cleanedSchema.$schema\<close>.
  Reading a property of \<^verbatim>\<open>null\<close> throws; of any other non-object it is \<^verbatim>\<open>undefined\<close>.\<close>

definition cleanSchema :: "json \<Rightarrow> error + json" where
  "cleanSchema schema =
     (case clone schema of
        JNull \<Rightarrow> Inl TypeError
      | JObj kvs \<Rightarrow>
          (case map_of kvs ''$schema'' of
             Some v \<Rightarrow> if truthy v then Inr (JObj (delete_prop ''$schema'' kvs)) else Inr (JObj kvs)
           | None \<Rightarrow> Inr (JObj kvs))
      | cleanedSchema \<Rightarrow> Inr cleanedSchema)"

section \<open>The input declarations (\<^verbatim>\<open>types.ts\<close>)\<close>

text \<open>
  Modelled from the spec: the interfaces of \<^verbatim>\<open>src/types.ts\<close> are not among the sources.
  The records below have the properties that \<^verbatim>\<open>DefinitionGenerator.ts\<close> reads, typed
  as the spec's data model and external interfaces describe them. A field \<open>x_foo\<close> is
  the property \<^verbatim>\<open>foo\<close> of the source's interface, and a property the source tests
  before use is an \<open>option\<close> (\<open>None\<close>: the key is absent). Schemas, examples and
  content are arbitrary JSON.
\<close>

record parameter =
  p_name :: string
  p_description :: "string option"
  p_required :: "bool option"
  p_allowEmptyValue :: "bool option"
  p_allowReserved :: "bool option"
  p_deprecated :: "bool option"
  p_style :: "string option"
  p_explode :: "bool option"
  p_schema :: "json option"
  p_examples :: "json option"
  p_content :: "json option"

record response_header =
  h_name :: string
  h_description :: "string option"
  h_schema :: "json option"

record body_documentation =
  b_description :: "string option"

text \<open>The status code is kept as the string it becomes as a property key and in the
  default description.\<close>

record method_response =
  r_statusCode :: string
  r_responseBody :: "body_documentation option"
  r_responseModels :: "(string \<times> string) list option"
  r_responseHeaders :: "response_header list option"

record event_documentation =
  d_operationId :: "string option"
  d_summary :: "string option"
  d_description :: "string option"
  d_tags :: "string list option"
  d_deprecated :: "bool option"
  d_requestBody :: "body_documentation option"
  d_requestModels :: "(string \<times> string) list option"
  d_pathParams :: "parameter list option"
  d_queryParams :: "parameter list option"
  d_requestHeaders :: "parameter list option"
  d_cookieParams :: "parameter list option"
  d_methodResponses :: "method_response list option"
  d_security :: "string list option"

text \<open>An authorizer is a name or an object that may carry a \<^verbatim>\<open>name\<close>.\<close>

datatype authorizer = AuthorizerName string | AuthorizerObject "string option"

record operation_config =
  o_path :: string
  o_method :: string
  o_authorizer :: "authorizer option"
  o_documentation :: "event_documentation option"

record function_event =
  e_http :: "operation_config option"
  e_httpApi :: "operation_config option"

record function_config =
  f_functionName :: string
  f_events :: "function_event list"

record ts_schema =
  t_filePath :: string
  t_typeName :: string

record model =
  m_name :: string
  m_schema :: "json option"
  m_tsSchema :: "ts_schema option"
  m_examples :: "json option"

record security_definition =
  s_name :: string
  s_authorizerName :: "string option"
  s_rest :: "(string \<times> json) list"

text \<open>The configuration, over the type \<open>'m\<close> of the entries of its \<^verbatim>\<open>models\<close> array:
  references to model objects where the object graph matters, the models themselves
  where the configuration is only read.\<close>

record 'm definition_config =
  c_title :: "string option"
  c_description :: "string option"
  c_version :: "string option"
  c_servers :: "json option"
  c_models :: "'m list option"
  c_security :: "security_definition list option"

section \<open>Parameters\<close>

definition isArray :: "json \<Rightarrow> bool" where
  "isArray v = (case v of JArr xs \<Rightarrow> True | _ \<Rightarrow> False)"

text \<open>The body of the inner loop of \<^verbatim>\<open>getParametersFromConfig\<close>, in the order of
  the source: the object literal with the adjustments for \<^verbatim>\<open>path\<close> and \<^verbatim>\<open>query\<close>;
  \<^verbatim>\<open>deprecated\<close>; \<^verbatim>\<open>style\<close> and \<^verbatim>\<open>explode\<close>; the cleaned \<^verbatim>\<open>schema\<close>;
  \<^verbatim>\<open>examples\<close> and \<^verbatim>\<open>content\<close>. (\<^verbatim>\<open>description || ''\<close> is the description itself
  when it is given, the empty string included.)\<close>

definition parameterKind :: "string \<Rightarrow> parameter \<Rightarrow> (string \<times> json) list" where
  "parameterKind type parameter =
     (let c = [(''name'', JStr (p_name parameter)),
               (''in'', JStr type),
               (''description'', JStr (case p_description parameter of Some d \<Rightarrow> d | None \<Rightarrow> [])),
               (''required'', JBool (p_required parameter = Some True))]
      in if type = ''path'' then set_prop ''required'' (JBool True) c
         else if type = ''query'' then
           (let q = set_prop ''allowEmptyValue'' (JBool (p_allowEmptyValue parameter = Some True)) c
            in case p_allowReserved parameter of
                 Some r \<Rightarrow> set_prop ''allowReserved'' (JBool r) q
               | None \<Rightarrow> q)
         else c)"

definition parameterDeprecated :: "parameter \<Rightarrow> (string \<times> json) list \<Rightarrow> (string \<times> json) list" where
  "parameterDeprecated parameter c =
     (case p_deprecated parameter of
        Some d \<Rightarrow> set_prop ''deprecated'' (JBool d) c
      | None \<Rightarrow> c)"

text \<open>\<^verbatim>\<open>explode = parameter.explode ? parameter.explode : parameter.style === 'form'\<close>.\<close>

definition parameterStyle :: "parameter \<Rightarrow> (string \<times> json) list \<Rightarrow> (string \<times> json) list" where
  "parameterStyle parameter c =
     (case p_style parameter of
        Some st \<Rightarrow>
          set_prop ''explode''
            (JBool (if p_explode parameter = Some True then True else st = ''form''))
            (set_prop ''style'' (JStr st) c)
      | None \<Rightarrow> c)"

definition parameterSchema :: "parameter \<Rightarrow> (string \<times> json) list \<Rightarrow> error + (string \<times> json) list" where
  "parameterSchema parameter c =
     (case p_schema parameter of
        Some sc \<Rightarrow>
          if truthy sc
          then (case cleanSchema sc of
                  Inl e \<Rightarrow> Inl e
                | Inr cleaned \<Rightarrow> Inr (set_prop ''schema'' cleaned c))
          else Inr c
      | None \<Rightarrow> Inr c)"

definition parameterExamples :: "parameter \<Rightarrow> (string \<times> json) list \<Rightarrow> (string \<times> json) list" where
  "parameterExamples parameter c =
     (case p_examples parameter of
        Some ex \<Rightarrow> if truthy ex \<and> isArray ex then set_prop ''examples'' ex c else c
      | None \<Rightarrow> c)"

definition parameterContent :: "parameter \<Rightarrow> (string \<times> json) list \<Rightarrow> (string \<times> json) list" where
  "parameterContent parameter c =
     (case p_content parameter of
        Some ct \<Rightarrow> if truthy ct then set_prop ''content'' ct c else c
      | None \<Rightarrow> c)"

definition parameterConfig :: "string \<Rightarrow> parameter \<Rightarrow> error + json" where
  "parameterConfig type parameter =
     (case parameterSchema parameter
             (parameterStyle parameter (parameterDeprecated parameter (parameterKind type parameter))) of
        Inl e \<Rightarrow> Inl e
      | Inr c \<Rightarrow> Inr (JObj (parameterContent parameter (parameterExamples parameter c))))"

text \<open>The \<^verbatim>\<open>if\<close> chain that picks the block of a kind; \<open>None\<close> is \<^verbatim>\<open>continue\<close>.\<close>

definition paramBlock :: "string \<Rightarrow> event_documentation \<Rightarrow> parameter list option" where
  "paramBlock type documentationConfig =
     (if type = ''path'' \<and> d_pathParams documentationConfig \<noteq> None
        then d_pathParams documentationConfig
      else if type = ''query'' \<and> d_queryParams documentationConfig \<noteq> None
        then d_queryParams documentationConfig
      else if type = ''header'' \<and> d_requestHeaders documentationConfig \<noteq> None
        then d_requestHeaders documentationConfig
      else if type = ''cookie'' \<and> d_cookieParams documentationConfig \<noteq> None
        then d_cookieParams documentationConfig
      else None)"

fun parametersOfBlock :: "string \<Rightarrow> parameter list \<Rightarrow> json list \<Rightarrow> error + json list" where
  "parametersOfBlock type [] parameters = Inr parameters"
| "parametersOfBlock type (parameter # rest) parameters =
     (case parameterConfig type parameter of
        Inl e \<Rightarrow> Inl e
      | Inr c \<Rightarrow> parametersOfBlock type rest (parameters @ [c]))"

fun parametersOfTypes :: "event_documentation \<Rightarrow> string list \<Rightarrow> json list \<Rightarrow> error + json list" where
  "parametersOfTypes documentationConfig [] parameters = Inr parameters"
| "parametersOfTypes documentationConfig (type # types) parameters =
     (case paramBlock type documentationConfig of
        None \<Rightarrow> parametersOfTypes documentationConfig types parameters
      | Some block \<Rightarrow>
          (case parametersOfBlock type block parameters of
             Inl e \<Rightarrow> Inl e
           | Inr parameters' \<Rightarrow> parametersOfTypes documentationConfig types parameters'))"

definition getParametersFromConfig :: "event_documentation \<Rightarrow> error + json list" where
  "getParametersFromConfig documentationConfig =
     parametersOfTypes documentationConfig [''path'', ''query'', ''header'', ''cookie''] []"

section \<open>Request bodies and responses\<close>

type_synonym config = "model definition_config"

definition schemaRef :: "string \<Rightarrow> json" where
  "schemaRef modelName = JObj [(''schema'', JObj [(''$ref'', JStr (''#/components/schemas/'' @ modelName))])]"

definition attachExamples :: "model \<Rightarrow> json \<Rightarrow> json" where
  "attachExamples target config =
     (case m_examples target of
        Some ex \<Rightarrow> if truthy ex then merge config (JObj [(''examples'', clone ex)]) else config
      | None \<Rightarrow> config)"

text \<open>The loop of \<^verbatim>\<open>getRequestBodiesFromConfig\<close> over \<^verbatim>\<open>Object.keys(requestModels)\<close>;
  \<^verbatim>\<open>this.config.models.filter(...).pop()\<close> is the last model of that name, and throws
  when the configuration has no \<^verbatim>\<open>models\<close>.\<close>

fun requestBodiesOfTypes ::
  "config \<Rightarrow> event_documentation \<Rightarrow> (string \<times> string) list \<Rightarrow> string list \<Rightarrow> json \<Rightarrow> error + json" where
  "requestBodiesOfTypes cfg documentationConfig requestModels [] requestBodies = Inr requestBodies"
| "requestBodiesOfTypes cfg documentationConfig requestModels (requestModelType # types) requestBodies =
     (case c_models cfg of
        None \<Rightarrow> Inl TypeError
      | Some models \<Rightarrow>
          (case map_of requestModels requestModelType of
             None \<Rightarrow> requestBodiesOfTypes cfg documentationConfig requestModels types requestBodies
           | Some modelName \<Rightarrow>
               (case filter (\<lambda>model. m_name model = modelName) models of
                  [] \<Rightarrow> requestBodiesOfTypes cfg documentationConfig requestModels types requestBodies
                | found # others \<Rightarrow>
                    (let requestModel = last (found # others);
                         reqModelConfig = attachExamples requestModel (schemaRef modelName);
                         content = [(''content'', JObj [(requestModelType, reqModelConfig)])];
                         reqBodyConfig =
                           (case d_requestBody documentationConfig of
                              Some body \<Rightarrow>
                                (case b_description body of
                                   Some d \<Rightarrow> set_prop ''description'' (JStr d) content
                                 | None \<Rightarrow> content)
                            | None \<Rightarrow> content)
                     in requestBodiesOfTypes cfg documentationConfig requestModels types
                          (merge requestBodies (JObj reqBodyConfig))))))"

definition getRequestBodiesFromConfig :: "config \<Rightarrow> event_documentation \<Rightarrow> error + json" where
  "getRequestBodiesFromConfig cfg documentationConfig =
     (case d_requestModels documentationConfig of
        None \<Rightarrow> Inl RequiredRequestModels
      | Some requestModels \<Rightarrow>
          requestBodiesOfTypes cfg documentationConfig requestModels (map fst requestModels) (JObj []))"

text \<open>The loop of \<^verbatim>\<open>getResponseContent\<close>; \<^verbatim>\<open>this.config.models.find\<close> is the first
  model of that name. \<^verbatim>\<open>Object.keys\<close> of an absent \<^verbatim>\<open>responseModels\<close> throws.\<close>

fun responseContentOfKeys ::
  "config \<Rightarrow> (string \<times> string) list \<Rightarrow> string list \<Rightarrow> json \<Rightarrow> error + json" where
  "responseContentOfKeys cfg response [] content = Inr content"
| "responseContentOfKeys cfg response (responseKey # keys) content =
     (case c_models cfg of
        None \<Rightarrow> Inl TypeError
      | Some models \<Rightarrow>
          (case map_of response responseKey of
             None \<Rightarrow> responseContentOfKeys cfg response keys content
           | Some modelName \<Rightarrow>
               (case find (\<lambda>model. m_name model = modelName) models of
                  None \<Rightarrow> responseContentOfKeys cfg response keys content
                | Some responseModel \<Rightarrow>
                    responseContentOfKeys cfg response keys
                      (merge content
                         (JObj [(responseKey, attachExamples responseModel (schemaRef modelName))])))))"

definition getResponseContent :: "config \<Rightarrow> (string \<times> string) list option \<Rightarrow> error + json" where
  "getResponseContent cfg response =
     (case response of
        None \<Rightarrow> Inl TypeError
      | Some models \<Rightarrow> responseContentOfKeys cfg models (map fst models) (JObj []))"

text \<open>The loop over \<^verbatim>\<open>response.responseHeaders\<close>.\<close>

fun headersOfResponse :: "response_header list \<Rightarrow> (string \<times> json) list \<Rightarrow> error + (string \<times> json) list" where
  "headersOfResponse [] headers = Inr headers"
| "headersOfResponse (header # rest) headers =
     (let entry = [(''description'',
                    JStr (case h_description header of
                            Some d \<Rightarrow> if d \<noteq> [] then d else h_name header @ '' header''
                          | None \<Rightarrow> h_name header @ '' header''))]
      in case h_schema header of
           Some sc \<Rightarrow>
             if truthy sc
             then (case cleanSchema sc of
                     Inl e \<Rightarrow> Inl e
                   | Inr cleaned \<Rightarrow>
                       headersOfResponse rest
                         (set_prop (h_name header) (JObj (set_prop ''schema'' cleaned entry)) headers))
             else headersOfResponse rest (set_prop (h_name header) (JObj entry) headers)
         | None \<Rightarrow> headersOfResponse rest (set_prop (h_name header) (JObj entry) headers))"

text \<open>One \<^verbatim>\<open>methodResponseConfig\<close>: the description, the content, then the headers.\<close>

definition methodResponseConfig :: "config \<Rightarrow> method_response \<Rightarrow> error + json" where
  "methodResponseConfig cfg response =
     (let description =
            (case r_responseBody response of
               Some body \<Rightarrow>
                 (case b_description body of
                    Some d \<Rightarrow> d
                  | None \<Rightarrow> ''Status '' @ r_statusCode response @ '' Response'')
             | None \<Rightarrow> ''Status '' @ r_statusCode response @ '' Response'')
      in case getResponseContent cfg (r_responseModels response) of
           Inl e \<Rightarrow> Inl e
         | Inr content \<Rightarrow>
             (let c = [(''description'', JStr description), (''content'', content)]
              in case r_responseHeaders response of
                   None \<Rightarrow> Inr (JObj c)
                 | Some hs \<Rightarrow>
                     (case headersOfResponse hs [] of
                        Inl e \<Rightarrow> Inl e
                      | Inr headers \<Rightarrow> Inr (JObj (set_prop ''headers'' (JObj headers) c)))))"

fun responsesOfList :: "config \<Rightarrow> method_response list \<Rightarrow> json \<Rightarrow> error + json" where
  "responsesOfList cfg [] responses = Inr responses"
| "responsesOfList cfg (response # rest) responses =
     (case methodResponseConfig cfg response of
        Inl e \<Rightarrow> Inl e
      | Inr c \<Rightarrow> responsesOfList cfg rest (merge responses (JObj [(r_statusCode response, c)])))"

definition getResponsesFromConfig :: "config \<Rightarrow> event_documentation \<Rightarrow> error + json" where
  "getResponsesFromConfig cfg documentationConfig =
     (case d_methodResponses documentationConfig of
        None \<Rightarrow> Inr (JObj [])
      | Some rs \<Rightarrow> responsesOfList cfg rs (JObj []))"

section \<open>Operations\<close>

text \<open>The optional members \<^verbatim>\<open>summary\<close>, \<^verbatim>\<open>description\<close>, \<^verbatim>\<open>tags\<close> and
  \<^verbatim>\<open>deprecated\<close>, each set only when its documentation value is truthy.\<close>

definition operationObj :: "string \<Rightarrow> event_documentation \<Rightarrow> (string \<times> json) list" where
  "operationObj funcName documentationConfig =
     (let o0 = [(''operationId'', JStr funcName)];
          o1 = (case d_summary documentationConfig of
                  Some t \<Rightarrow> if t \<noteq> [] then set_prop ''summary'' (JStr t) o0 else o0
                | None \<Rightarrow> o0);
          o2 = (case d_description documentationConfig of
                  Some t \<Rightarrow> if t \<noteq> [] then set_prop ''description'' (JStr t) o1 else o1
                | None \<Rightarrow> o1);
          o3 = (case d_tags documentationConfig of
                  Some ts \<Rightarrow> set_prop ''tags'' (JArr (map JStr ts)) o2
                | None \<Rightarrow> o2)
      in if d_deprecated documentationConfig = Some True
         then set_prop ''deprecated'' (JBool True) o3 else o3)"

text \<open>\<^verbatim>\<open>{ [security.name]: [] }\<close>.\<close>

definition securityRequirement :: "security_definition \<Rightarrow> json" where
  "securityRequirement security = JObj [(s_name security, JArr [])]"

text \<open>The first rule: \<^verbatim>\<open>if (config.authorizer && this.config.security)\<close>. A string
  authorizer is truthy when it is not empty, an object always; the name of an object
  without \<^verbatim>\<open>name\<close> is \<^verbatim>\<open>undefined\<close>, which \<^verbatim>\<open>===\<close> equates with an absent
  \<^verbatim>\<open>authorizerName\<close>.\<close>

definition authorizerTruthy :: "authorizer \<Rightarrow> bool" where
  "authorizerTruthy a = (case a of AuthorizerName n \<Rightarrow> n \<noteq> [] | AuthorizerObject n \<Rightarrow> True)"

definition authorizerNameOf :: "authorizer \<Rightarrow> string option" where
  "authorizerNameOf a = (case a of AuthorizerName n \<Rightarrow> Some n | AuthorizerObject n \<Rightarrow> n)"

definition authorizerSecurity ::
  "config \<Rightarrow> operation_config \<Rightarrow> (string \<times> json) list \<Rightarrow> (string \<times> json) list" where
  "authorizerSecurity cfg config obj =
     (case o_authorizer config of
        None \<Rightarrow> obj
      | Some a \<Rightarrow>
          if authorizerTruthy a
          then (case c_security cfg of
                  None \<Rightarrow> obj
                | Some defs \<Rightarrow>
                    (case find (\<lambda>s. s_authorizerName s = authorizerNameOf a) defs of
                       None \<Rightarrow> obj
                     | Some security \<Rightarrow>
                         set_prop ''security'' (JArr [securityRequirement security]) obj))
          else obj)"

text \<open>The second rule: \<^verbatim>\<open>if (documentationConfig.security)\<close>, where
  \<^verbatim>\<open>this.config.security.filter\<close> is read without a guard.\<close>

definition documentationSecurity ::
  "config \<Rightarrow> event_documentation \<Rightarrow> (string \<times> json) list \<Rightarrow> error + (string \<times> json) list" where
  "documentationSecurity cfg documentationConfig obj =
     (case d_security documentationConfig of
        None \<Rightarrow> Inr obj
      | Some names \<Rightarrow>
          (case c_security cfg of
             None \<Rightarrow> Inl TypeError
           | Some defs \<Rightarrow>
               (let securities = filter (\<lambda>s. s_name s \<in> set names) defs
                in if length securities > 0
                   then Inr (set_prop ''security'' (JArr (map securityRequirement securities)) obj)
                   else Inr obj)))"

definition getOperationFromConfig :: "config \<Rightarrow> string \<Rightarrow> operation_config \<Rightarrow> error + json" where
  "getOperationFromConfig cfg funcName config =
     (case o_documentation config of
        None \<Rightarrow> Inl TypeError
      | Some documentationConfig \<Rightarrow>
          (case (case d_requestModels documentationConfig of
                   Some requestModels \<Rightarrow>
                     (case getRequestBodiesFromConfig cfg documentationConfig of
                        Inl e \<Rightarrow> Inl e
                      | Inr requestBody \<Rightarrow>
                          Inr (set_prop ''requestBody'' requestBody
                                 (operationObj funcName documentationConfig)))
                 | None \<Rightarrow> Inr (operationObj funcName documentationConfig)) of
             Inl e \<Rightarrow> Inl e
           | Inr obj \<Rightarrow>
               (case getParametersFromConfig documentationConfig of
                  Inl e \<Rightarrow> Inl e
                | Inr parameters \<Rightarrow>
                    (case getResponsesFromConfig cfg documentationConfig of
                       Inl e \<Rightarrow> Inl e
                     | Inr responses \<Rightarrow>
                         (case documentationSecurity cfg documentationConfig
                                 (authorizerSecurity cfg config
                                    (set_prop ''responses'' responses
                                       (set_prop ''parameters'' (JArr parameters) obj))) of
                            Inl e \<Rightarrow> Inl e
                          | Inr obj' \<Rightarrow> Inr (JObj obj'))))))"

section \<open>Reading the functions\<close>

definition getHttpEvents :: "function_event list \<Rightarrow> function_event list" where
  "getHttpEvents funcConfig = filter (\<lambda>event. e_http event \<noteq> None \<or> e_httpApi event \<noteq> None) funcConfig"

text \<open>\<^verbatim>\<open>path.startsWith('/') ? path : `/${path}`\<close>.\<close>

definition documentedPath :: "string \<Rightarrow> string" where
  "documentedPath p = (if startsWith p ''/'' then p else ''/'' @ p)"

text \<open>The fragment \<^verbatim>\<open>{ [path]: { [method.toLowerCase()]: operation } }\<close>.\<close>

definition pathConfig :: "operation_config \<Rightarrow> json \<Rightarrow> json" where
  "pathConfig httpEventConfig operation =
     JObj [(documentedPath (o_path httpEventConfig),
            JObj [(toLowerCase (o_method httpEventConfig), operation)])]"

text \<open>\<^verbatim>\<open>httpEvent.http ?? httpEvent.httpApi\<close>.\<close>

definition httpEventConfigOf :: "function_event \<Rightarrow> operation_config option" where
  "httpEventConfigOf httpEvent =
     (case e_http httpEvent of Some c \<Rightarrow> Some c | None \<Rightarrow> e_httpApi httpEvent)"

text \<open>\<^verbatim>\<open>documentation.operationId ?? funcConfig._functionName\<close>.\<close>

definition operationIdOf :: "event_documentation \<Rightarrow> string \<Rightarrow> string" where
  "operationIdOf documentation functionName =
     (case d_operationId documentation of Some i \<Rightarrow> i | None \<Rightarrow> functionName)"

text \<open>The inner loop of \<^verbatim>\<open>readFunctions\<close> over the http events of one function; the
  state is \<^verbatim>\<open>this.definition.paths\<close>.\<close>

fun readEvents :: "config \<Rightarrow> string \<Rightarrow> function_event list \<Rightarrow> json \<Rightarrow> error + json" where
  "readEvents cfg functionName [] paths = Inr paths"
| "readEvents cfg functionName (httpEvent # rest) paths =
     (case httpEventConfigOf httpEvent of
        None \<Rightarrow> Inl TypeError
      | Some httpEventConfig \<Rightarrow>
          (case o_documentation httpEventConfig of
             None \<Rightarrow> readEvents cfg functionName rest paths
           | Some documentation \<Rightarrow>
               (case getOperationFromConfig cfg (operationIdOf documentation functionName)
                       httpEventConfig of
                  Inl e \<Rightarrow> Inl e
                | Inr operation \<Rightarrow>
                    readEvents cfg functionName rest
                      (merge paths (pathConfig httpEventConfig operation)))))"

fun readFunctions :: "config \<Rightarrow> function_config list \<Rightarrow> json \<Rightarrow> error + json" where
  "readFunctions cfg [] paths = Inr paths"
| "readFunctions cfg (funcConfig # rest) paths =
     (case readEvents cfg (f_functionName funcConfig) (getHttpEvents (f_events funcConfig)) paths of
        Inl e \<Rightarrow> Inl e
      | Inr paths' \<Rightarrow> readFunctions cfg rest paths')"

text \<open>The entry \<^verbatim>\<open>paths[path][method]\<close> of a paths tree.\<close>

definition entry :: "json \<Rightarrow> string \<Rightarrow> string \<Rightarrow> json option" where
  "entry paths p m = (case get p paths of Some item \<Rightarrow> get m item | None \<Rightarrow> None)"

section \<open>Construction and \<^verbatim>\<open>parse\<close>\<close>

text \<open>
  \<^verbatim>\<open>parse\<close> writes to the model objects of \<^verbatim>\<open>this.config.models\<close>
  (\<^verbatim>\<open>model.schema = ...; delete model.tsSchema\<close>), so these objects live in a store: a
  configuration holds references to them, and the references below \<open>next_ref\<close> are the
  allocated ones.
\<close>

type_synonym ref = nat

record heap =
  objects :: "ref \<Rightarrow> model"
  next_ref :: ref

definition alloc :: "model \<Rightarrow> heap \<Rightarrow> ref \<times> heap" where
  "alloc m h = (next_ref h, h\<lparr>objects := (objects h)(next_ref h := m), next_ref := Suc (next_ref h)\<rparr>)"

text \<open>The configuration as \<^verbatim>\<open>readFunctions\<close> reads it: every reference replaced by the
  object it points to.\<close>

definition resolve :: "heap \<Rightarrow> ref definition_config \<Rightarrow> config" where
  "resolve h c =
     \<lparr>c_title = c_title c, c_description = c_description c, c_version = c_version c,
      c_servers = c_servers c, c_models = map_option (map (objects h)) (c_models c),
      c_security = c_security c\<rparr>"

text \<open>Modelled from the spec: \<^verbatim>\<open>clone\<close> of \<^verbatim>\<open>src/utils.ts\<close>, applied to a model
  object. A deep copy: the JSON the model holds is cloned.\<close>

definition clone_model :: "model \<Rightarrow> model" where
  "clone_model m =
     \<lparr>m_name = m_name m, m_schema = map_option clone (m_schema m),
      m_tsSchema = m_tsSchema m, m_examples = map_option clone (m_examples m)\<rparr>"

text \<open>Modelled from the spec: \<^verbatim>\<open>clone\<close> of \<^verbatim>\<open>src/utils.ts\<close>, applied to the
  \<^verbatim>\<open>models\<close> array. A deep copy: every model object is copied into a newly allocated
  one.\<close>

fun clone_models :: "ref list \<Rightarrow> heap \<Rightarrow> ref list \<times> heap" where
  "clone_models [] h = ([], h)"
| "clone_models (r # rs) h =
     (let (r', h') = alloc (clone_model (objects h r)) h;
          (rs', h'') = clone_models rs h'
      in (r' # rs', h''))"

text \<open>Modelled from the spec: \<^verbatim>\<open>clone\<close> of \<^verbatim>\<open>src/utils.ts\<close>, applied to a
  configuration. A deep copy: the copy shares no model object with the original.\<close>

definition clone_config :: "ref definition_config \<Rightarrow> heap \<Rightarrow> ref definition_config \<times> heap" where
  "clone_config c h =
     (case c_models c of
        None \<Rightarrow> (c\<lparr>c_servers := map_option clone (c_servers c)\<rparr>, h)
      | Some rs \<Rightarrow>
          (let (rs', h') = clone_models rs h
           in (c\<lparr>c_servers := map_option clone (c_servers c), c_models := Some rs'\<rparr>, h')))"

text \<open>The generator: its private configuration and the document it accumulates.\<close>

record generator =
  g_config :: "ref definition_config"
  g_definition :: json

text \<open>The constructor: \<^verbatim>\<open>this.config = clone(config)\<close>, with the field initialisers
  \<^verbatim>\<open>version = '3.0.0'\<close> and \<^verbatim>\<open>definition = { openapi: this.version, components: {} }\<close>.\<close>

definition version :: string where
  "version = ''3.0.0''"

definition constructor :: "ref definition_config \<Rightarrow> heap \<Rightarrow> generator \<times> heap" where
  "constructor config h =
     (let (c, h') = clone_config config h
      in (\<lparr>g_config = c,
           g_definition = JObj [(''openapi'', JStr version), (''components'', JObj [])]\<rparr>, h'))"

text \<open>The external collaborators: the identifier \<^verbatim>\<open>uuid.v4()\<close> returns, the schema
  \<^verbatim>\<open>TJS.generateSchema\<close> derives for a type reference, and \<^verbatim>\<open>dereference\<close>.\<close>

record collaborators =
  x_uuid :: string
  x_generateSchema :: "ts_schema \<Rightarrow> json"
  x_dereference :: "json \<Rightarrow> json"

text \<open>The \<^verbatim>\<open>reduce\<close> that fills \<^verbatim>\<open>securitySchemes\<close>: \<^verbatim>\<open>result[name] = { name, ...rest }\<close>.\<close>

fun securitySchemes :: "security_definition list \<Rightarrow> (string \<times> json) list \<Rightarrow> (string \<times> json) list" where
  "securitySchemes [] result = result"
| "securitySchemes (s # rest) result =
     securitySchemes rest
       (set_prop (s_name s) (JObj ((''name'', JStr (s_name s)) # s_rest s)) result)"

text \<open>The object merged into \<^verbatim>\<open>this.definition\<close>, with the defaults of the destructuring.\<close>

definition skeleton :: "collaborators \<Rightarrow> ref definition_config \<Rightarrow> json" where
  "skeleton x c =
     JObj [(''openapi'', JStr version),
           (''info'', JObj [(''title'', JStr (case c_title c of Some t \<Rightarrow> t | None \<Rightarrow> [])),
                           (''description'', JStr (case c_description c of Some t \<Rightarrow> t | None \<Rightarrow> [])),
                           (''version'', JStr (case c_version c of Some t \<Rightarrow> t | None \<Rightarrow> x_uuid x))]),
           (''servers'', (case c_servers c of Some sv \<Rightarrow> sv | None \<Rightarrow> JArr [])),
           (''paths'', JObj []),
           (''components'',
              JObj [(''schemas'', JObj []),
                    (''securitySchemes'',
                       JObj (securitySchemes (case c_security c of Some ss \<Rightarrow> ss | None \<Rightarrow> []) []))])]"

text \<open>\<^verbatim>\<open>this.definition.components.schemas[name] = schema\<close>; writing through a member
  that is not an object throws.\<close>

definition setSchema :: "string \<Rightarrow> json \<Rightarrow> json \<Rightarrow> error + json" where
  "setSchema name schema definition =
     (case definition of
        JObj d \<Rightarrow>
          (case map_of d ''components'' of
             Some (JObj components) \<Rightarrow>
               (case map_of components ''schemas'' of
                  Some (JObj schemas) \<Rightarrow>
                    Inr (JObj (set_prop ''components''
                                 (JObj (set_prop ''schemas'' (JObj (set_prop name schema schemas)) components))
                                 d))
                | _ \<Rightarrow> Inl TypeError)
           | _ \<Rightarrow> Inl TypeError)
      | _ \<Rightarrow> Inl TypeError)"

text \<open>\<^verbatim>\<open>schemas[model.name] = this.cleanSchema(dereference(model.schema))\<close>.\<close>

definition registerSchema :: "collaborators \<Rightarrow> string \<Rightarrow> json \<Rightarrow> json \<Rightarrow> error + json" where
  "registerSchema x name schema definition =
     (case cleanSchema (x_dereference x schema) of
        Inl e \<Rightarrow> Inl e
      | Inr cleaned \<Rightarrow> setSchema name cleaned definition)"

text \<open>The loop over the models. A model with a \<^verbatim>\<open>tsSchema\<close> is rewritten in the store;
  one without it is used when its \<^verbatim>\<open>schema\<close> is truthy and skipped otherwise. The store
  is returned also when the loop throws.\<close>

fun parseModels :: "collaborators \<Rightarrow> ref list \<Rightarrow> heap \<Rightarrow> json \<Rightarrow> heap \<times> (error + json)" where
  "parseModels x [] h definition = (h, Inr definition)"
| "parseModels x (r # rs) h definition =
     (let model = objects h r
      in case m_tsSchema model of
           Some ts \<Rightarrow>
             (let schema = x_generateSchema x ts;
                  h' = h\<lparr>objects := (objects h)(r := model\<lparr>m_schema := Some schema, m_tsSchema := None\<rparr>)\<rparr>
              in case registerSchema x (m_name model) schema definition of
                   Inl e \<Rightarrow> (h', Inl e)
                 | Inr definition' \<Rightarrow> parseModels x rs h' definition')
         | None \<Rightarrow>
             (case m_schema model of
                None \<Rightarrow> parseModels x rs h definition
              | Some schema \<Rightarrow>
                  if truthy schema
                  then (case registerSchema x (m_name model) schema definition of
                          Inl e \<Rightarrow> (h, Inl e)
                        | Inr definition' \<Rightarrow> parseModels x rs h definition')
                  else parseModels x rs h definition))"

definition parse :: "collaborators \<Rightarrow> generator \<Rightarrow> heap \<Rightarrow> heap \<times> (error + generator)" where
  "parse x g h =
     (let definition = merge (g_definition g) (skeleton x (g_config g))
      in if isIterable (c_models (g_config g))
         then (case c_models (g_config g) of
                 None \<Rightarrow> (h, Inr (g\<lparr>g_definition := definition\<rparr>))
               | Some models \<Rightarrow>
                   (case parseModels x models h definition of
                      (h', Inl e) \<Rightarrow> (h', Inl e)
                    | (h', Inr definition') \<Rightarrow> (h', Inr (g\<lparr>g_definition := definition'\<rparr>))))
         else (h, Inr (g\<lparr>g_definition := definition\<rparr>)))"

text \<open>The entry \<^verbatim>\<open>components.schemas[name]\<close> of a document.\<close>

definition schemaOf :: "json \<Rightarrow> string \<Rightarrow> json option" where
  "schemaOf definition name =
     (case get ''components'' definition of
        Some components \<Rightarrow>
          (case get ''schemas'' components of
             Some schemas \<Rightarrow> get name schemas
           | None \<Rightarrow> None)
      | None \<Rightarrow> None)"

section \<open>Example inputs\<close>

text \<open>A parameter declaration that gives only a name, and a documentation block that
  documents nothing; the examples below fill in the fields they need.\<close>

definition parameter_named :: "string \<Rightarrow> parameter" where
  "parameter_named n =
     \<lparr>p_name = n, p_description = None, p_required = None, p_allowEmptyValue = None,
      p_allowReserved = None, p_deprecated = None, p_style = None, p_explode = None,
      p_schema = None, p_examples = None, p_content = None\<rparr>"

definition documentation_empty :: event_documentation where
  "documentation_empty =
     \<lparr>d_operationId = None, d_summary = None, d_description = None, d_tags = None,
      d_deprecated = None, d_requestBody = None, d_requestModels = None, d_pathParams = None,
      d_queryParams = None, d_requestHeaders = None, d_cookieParams = None,
      d_methodResponses = None, d_security = None\<rparr>"

text \<open>\<^verbatim>\<open>pathParams: [{ name: 'id', required: false }]\<close>.\<close>

definition documentation_path_id :: event_documentation where
  "documentation_path_id =
     documentation_empty\<lparr>d_pathParams := Some [(parameter_named ''id'')\<lparr>p_required := Some False\<rparr>]\<rparr>"

text \<open>\<^verbatim>\<open>{ name: 'q', style: 'form', explode: false }\<close>.\<close>

definition parameter_form_not_exploded :: parameter where
  "parameter_form_not_exploded =
     (parameter_named ''q'')\<lparr>p_style := Some ''form'', p_explode := Some False\<rparr>"

text \<open>A configuration with one model and two security definitions, the first linked to
  the authorizer \<^verbatim>\<open>auth\<close>; and the same configuration without \<^verbatim>\<open>security\<close>.\<close>

definition model_pet :: model where
  "model_pet =
     \<lparr>m_name = ''Pet'',
      m_schema = Some (JObj [(''type'', JStr ''object'')]),
      m_tsSchema = None, m_examples = None\<rparr>"

definition config_secured :: config where
  "config_secured =
     \<lparr>c_title = Some ''Pets'', c_description = None, c_version = Some ''1'', c_servers = None,
      c_models = Some [model_pet],
      c_security = Some [\<lparr>s_name = ''apiKey'', s_authorizerName = Some ''auth'', s_rest = []\<rparr>,
                         \<lparr>s_name = ''oauth'', s_authorizerName = None, s_rest = []\<rparr>]\<rparr>"

definition config_unsecured :: config where
  "config_unsecured = config_secured\<lparr>c_security := None\<rparr>"

text \<open>\<^verbatim>\<open>{ path: 'pets', method: 'POST', documentation: { requestBody: { description: 'A pet' } } }\<close>:
  a request body is documented, \<^verbatim>\<open>requestModels\<close> is not.\<close>

definition documentation_body_only :: event_documentation where
  "documentation_body_only =
     documentation_empty\<lparr>d_requestBody := Some \<lparr>b_description = Some ''A pet''\<rparr>\<rparr>"

definition operation_body_only :: operation_config where
  "operation_body_only =
     \<lparr>o_path = ''pets'', o_method = ''POST'', o_authorizer = None,
      o_documentation = Some documentation_body_only\<rparr>"

definition function_body_only :: function_config where
  "function_body_only =
     \<lparr>f_functionName = ''createPet'',
      f_events = [\<lparr>e_http = Some operation_body_only, e_httpApi = None\<rparr>]\<rparr>"

text \<open>\<^verbatim>\<open>{ path: '/pets', method: 'get', authorizer: 'auth', documentation: { security: ['oauth'] } }\<close>.\<close>

definition documentation_oauth :: event_documentation where
  "documentation_oauth = documentation_empty\<lparr>d_security := Some [''oauth'']\<rparr>"

definition operation_oauth :: operation_config where
  "operation_oauth =
     \<lparr>o_path = ''/pets'', o_method = ''get'', o_authorizer = Some (AuthorizerName ''auth''),
      o_documentation = Some documentation_oauth\<rparr>"

text \<open>A \<^verbatim>\<open>200\<close> response documented with a model the configuration does not declare.\<close>

definition response_missing_model :: method_response where
  "response_missing_model =
     \<lparr>r_statusCode = ''200'', r_responseBody = None,
      r_responseModels = Some [(''application/json'', ''Missing'')],
      r_responseHeaders = None\<rparr>"

definition documentation_missing_model :: event_documentation where
  "documentation_missing_model =
     documentation_empty\<lparr>d_methodResponses := Some [response_missing_model]\<rparr>"

text \<open>The scenario of the spec: \<^verbatim>\<open>getPet\<close> has an \<^verbatim>\<open>http\<close> event \<^verbatim>\<open>GET pets/{id}\<close>
  (no leading slash) with the path parameter \<^verbatim>\<open>id\<close> and a \<^verbatim>\<open>200\<close> response
  documenting \<^verbatim>\<open>Pet\<close>; \<^verbatim>\<open>putPet\<close> has an \<^verbatim>\<open>httpApi\<close> event \<^verbatim>\<open>Put /pets/{id}\<close>. The
  operation objects are what the generator builds for them.\<close>

definition documentation_get_pet :: event_documentation where
  "documentation_get_pet =
     documentation_path_id\<lparr>d_methodResponses :=
       Some [\<lparr>r_statusCode = ''200'', r_responseBody = None,
              r_responseModels = Some [(''application/json'', ''Pet'')],
              r_responseHeaders = None\<rparr>]\<rparr>"

definition operation_get_pet :: operation_config where
  "operation_get_pet =
     \<lparr>o_path = ''pets/{id}'', o_method = ''GET'', o_authorizer = None,
      o_documentation = Some documentation_get_pet\<rparr>"

definition function_get_pet :: function_config where
  "function_get_pet =
     \<lparr>f_functionName = ''getPet'',
      f_events = [\<lparr>e_http = Some operation_get_pet, e_httpApi = None\<rparr>]\<rparr>"

definition operation_put_pet :: operation_config where
  "operation_put_pet =
     \<lparr>o_path = ''/pets/{id}'', o_method = ''Put'', o_authorizer = None,
      o_documentation = Some documentation_path_id\<rparr>"

definition function_put_pet :: function_config where
  "function_put_pet =
     \<lparr>f_functionName = ''putPet'',
      f_events = [\<lparr>e_http = None, e_httpApi = Some operation_put_pet\<rparr>]\<rparr>"

definition operation_object_get_pet :: json where
  "operation_object_get_pet =
     JObj [(''operationId'', JStr ''getPet''),
           (''parameters'',
              JArr [JObj [(''name'', JStr ''id''), (''in'', JStr ''path''),
                          (''description'', JStr []), (''required'', JBool True)]]),
           (''responses'',
              JObj [(''200'',
                     JObj [(''description'', JStr ''Status 200 Response''),
                           (''content'',
                              JObj [(''application/json'',
                                     JObj [(''schema'',
                                            JObj [(''$ref'', JStr ''#/components/schemas/Pet'')])])])])])]"

definition operation_object_put_pet :: json where
  "operation_object_put_pet =
     JObj [(''operationId'', JStr ''putPet''),
           (''parameters'',
              JArr [JObj [(''name'', JStr ''id''), (''in'', JStr ''path''),
                          (''description'', JStr []), (''required'', JBool True)]]),
           (''responses'', JObj [])]"

text \<open>Collaborators for the examples: a fixed identifier, a deriver that returns
  \<^verbatim>\<open>{ type: 'object' }\<close>, and a dereferencer that finds no reference to inline.\<close>

definition collaborators_plain :: collaborators where
  "collaborators_plain =
     \<lparr>x_uuid = ''00000000-0000-4000-8000-000000000000'',
      x_generateSchema = (\<lambda>ts. JObj [(''type'', JStr ''object'')]),
      x_dereference = (\<lambda>schema. schema)\<rparr>"

text \<open>A caller's configuration whose \<^verbatim>\<open>models\<close> array holds the object at reference 0,
  in a store where that object is a model given by a source type, and in one where it
  is \<^verbatim>\<open>{ name: 'Pet', schema: { $schema: '', type: 'object' } }\<close>.\<close>

definition config_by_reference :: "ref definition_config" where
  "config_by_reference =
     \<lparr>c_title = Some ''Pets'', c_description = None, c_version = Some ''1'', c_servers = None,
      c_models = Some [0], c_security = None\<rparr>"

definition model_from_type :: model where
  "model_from_type =
     \<lparr>m_name = ''Pet'', m_schema = None,
      m_tsSchema = Some \<lparr>t_filePath = ''src/pet.ts'', t_typeName = ''Pet''\<rparr>,
      m_examples = None\<rparr>"

definition heap_model_from_type :: heap where
  "heap_model_from_type = \<lparr>objects = (\<lambda>r. model_from_type), next_ref = 1\<rparr>"

definition model_empty_schema_key :: model where
  "model_empty_schema_key =
     \<lparr>m_name = ''Pet'',
      m_schema = Some (JObj [(''$schema'', JStr []), (''type'', JStr ''object'')]),
      m_tsSchema = None, m_examples = None\<rparr>"

definition heap_model_empty_schema_key :: heap where
  "heap_model_empty_schema_key = \<lparr>objects = (\<lambda>r. model_empty_schema_key), next_ref = 1\<rparr>"


text \<open>A function whose event documents the \<^verbatim>\<open>200\<close> response with the model
  \<^verbatim>\<open>Missing\<close>; a caller's configuration without \<^verbatim>\<open>models\<close>; and a store where the
  object at reference 0 is \<^verbatim>\<open>{ name: 'Missing' }\<close>, a model declared with neither
  \<^verbatim>\<open>schema\<close> nor \<^verbatim>\<open>tsSchema\<close>.\<close>

definition operation_missing_model :: operation_config where
  "operation_missing_model =
     \<lparr>o_path = ''/pets'', o_method = ''get'', o_authorizer = None,
      o_documentation = Some documentation_missing_model\<rparr>"

definition function_missing_model :: function_config where
  "function_missing_model =
     \<lparr>f_functionName = ''listPets'',
      f_events = [\<lparr>e_http = Some operation_missing_model, e_httpApi = None\<rparr>]\<rparr>"

definition config_without_models :: "ref definition_config" where
  "config_without_models = config_by_reference\<lparr>c_models := None\<rparr>"

definition model_without_schema :: model where
  "model_without_schema =
     \<lparr>m_name = ''Missing'', m_schema = None, m_tsSchema = None, m_examples = None\<rparr>"

definition heap_model_without_schema :: heap where
  "heap_model_without_schema = \<lparr>objects = (\<lambda>r. model_without_schema), next_ref = 1\<rparr>"

section \<open>Objects, cloning and merging\<close>

lemma clone_id: "clone v = v"
  by (induction v) (auto intro!: map_idI)

lemma map_of_set_prop:
  "map_of (set_prop k v kvs) k' = (if k' = k then Some v else map_of kvs k')"
  by (simp add: set_prop_def update_conv')

lemma cleanSchema_truthy: "truthy sc \<Longrightarrow> \<exists>c. cleanSchema sc = Inr c"
  by (cases sc) (auto simp: cleanSchema_def clone_id split: option.splits)

section \<open>Parameters\<close>

lemma map_of_parameterKind:
  "map_of (parameterKind type p) ''in'' = Some (JStr type)"
  "map_of (parameterKind type p) ''name'' = Some (JStr (p_name p))"
  "map_of (parameterKind type p) ''required'' = Some (JBool (type = ''path'' \<or> p_required p = Some True))"
  by (simp_all add: parameterKind_def Let_def map_of_set_prop split: option.split)

lemma map_of_parameterDeprecated:
  "k \<noteq> ''deprecated'' \<Longrightarrow> map_of (parameterDeprecated p c) k = map_of c k"
  by (simp add: parameterDeprecated_def map_of_set_prop split: option.split)

lemma map_of_parameterStyle:
  "k \<noteq> ''style'' \<Longrightarrow> k \<noteq> ''explode'' \<Longrightarrow> map_of (parameterStyle p c) k = map_of c k"
  by (simp add: parameterStyle_def map_of_set_prop split: option.split)

lemma map_of_parameterSchema:
  "parameterSchema p c = Inr c' \<Longrightarrow> k \<noteq> ''schema'' \<Longrightarrow> map_of c' k = map_of c k"
  by (auto simp: parameterSchema_def map_of_set_prop split: option.splits if_splits sum.splits)

lemma parameterSchema_total: "\<exists>c'. parameterSchema p c = Inr c'"
proof (cases "p_schema p")
  case None
  then show ?thesis by (simp add: parameterSchema_def)
next
  case (Some sc)
  show ?thesis
  proof (cases "truthy sc")
    case True
    then obtain cl where "cleanSchema sc = Inr cl" using cleanSchema_truthy by blast
    with Some True show ?thesis by (simp add: parameterSchema_def)
  next
    case False
    with Some show ?thesis by (simp add: parameterSchema_def)
  qed
qed

lemma map_of_parameterExamples:
  "k \<noteq> ''examples'' \<Longrightarrow> map_of (parameterExamples p c) k = map_of c k"
  by (simp add: parameterExamples_def map_of_set_prop split: option.split)

lemma map_of_parameterContent:
  "k \<noteq> ''content'' \<Longrightarrow> map_of (parameterContent p c) k = map_of c k"
  by (simp add: parameterContent_def map_of_set_prop split: option.split)

lemma parameterConfig_total: "\<exists>c. parameterConfig type p = Inr c"
  using parameterSchema_total [of p "parameterStyle p (parameterDeprecated p (parameterKind type p))"]
  by (auto simp: parameterConfig_def)

lemma parameterConfig_members:
  assumes "parameterConfig type p = Inr c"
  shows "get ''in'' c = Some (JStr type)"
    and "get ''name'' c = Some (JStr (p_name p))"
    and "get ''required'' c = Some (JBool (type = ''path'' \<or> p_required p = Some True))"
proof -
  from assms obtain c' where
    s: "parameterSchema p (parameterStyle p (parameterDeprecated p (parameterKind type p))) = Inr c'"
    and c: "c = JObj (parameterContent p (parameterExamples p c'))"
    by (auto simp: parameterConfig_def split: sum.splits)
  show "get ''in'' c = Some (JStr type)"
    by (simp add: c map_of_parameterContent map_of_parameterExamples map_of_parameterSchema [OF s]
        map_of_parameterStyle map_of_parameterDeprecated map_of_parameterKind)
  show "get ''name'' c = Some (JStr (p_name p))"
    by (simp add: c map_of_parameterContent map_of_parameterExamples map_of_parameterSchema [OF s]
        map_of_parameterStyle map_of_parameterDeprecated map_of_parameterKind)
  show "get ''required'' c = Some (JBool (type = ''path'' \<or> p_required p = Some True))"
    by (simp add: c map_of_parameterContent map_of_parameterExamples map_of_parameterSchema [OF s]
        map_of_parameterStyle map_of_parameterDeprecated map_of_parameterKind)
qed

lemma parameterConfig_explode:
  assumes "parameterConfig type p = Inr c" and "p_style p = Some st"
  shows "get ''explode'' c = Some (JBool (p_explode p = Some True \<or> st = ''form''))"
proof -
  from assms obtain c' where
    s: "parameterSchema p (parameterStyle p (parameterDeprecated p (parameterKind type p))) = Inr c'"
    and c: "c = JObj (parameterContent p (parameterExamples p c'))"
    by (auto simp: parameterConfig_def split: sum.splits)
  have "map_of (parameterStyle p (parameterDeprecated p (parameterKind type p))) ''explode''
          = Some (JBool (p_explode p = Some True \<or> st = ''form''))"
    using assms(2) by (simp add: parameterStyle_def map_of_set_prop)
  then show ?thesis
    by (simp add: c map_of_parameterContent map_of_parameterExamples map_of_parameterSchema [OF s])
qed

text \<open>The inner loop appends one object for each declaration of the block, in order.\<close>

lemma parametersOfBlock_result:
  "\<exists>cs. parametersOfBlock type ps acc = Inr (acc @ cs) \<and>
        list_all2 (\<lambda>p c. parameterConfig type p = Inr c) ps cs"
proof (induction ps arbitrary: acc)
  case Nil
  then show ?case by simp
next
  case (Cons p ps)
  obtain c where c: "parameterConfig type p = Inr c"
    using parameterConfig_total by blast
  from Cons.IH [of "acc @ [c]"] obtain cs where
    "parametersOfBlock type ps (acc @ [c]) = Inr ((acc @ [c]) @ cs)"
    "list_all2 (\<lambda>p c. parameterConfig type p = Inr c) ps cs"
    by blast
  with c have "parametersOfBlock type (p # ps) acc = Inr (acc @ (c # cs))"
    and "list_all2 (\<lambda>p c. parameterConfig type p = Inr c) (p # ps) (c # cs)"
    by simp_all
  then show ?case by blast
qed

text \<open>The outer loop only appends, and whatever it appends was built by
  \<open>parameterConfig\<close> for the kind of its block.\<close>

lemma parametersOfTypes_result:
  "\<exists>cs. parametersOfTypes doc types acc = Inr (acc @ cs) \<and>
        (\<forall>c \<in> set cs. \<exists>type p. parameterConfig type p = Inr c)"
proof (induction types arbitrary: acc)
  case Nil
  then show ?case by simp
next
  case (Cons t types)
  show ?case
  proof (cases "paramBlock t doc")
    case None
    with Cons.IH [of acc] show ?thesis by simp
  next
    case (Some block)
    obtain cs where cs: "parametersOfBlock t block acc = Inr (acc @ cs)"
      and all: "list_all2 (\<lambda>p c. parameterConfig t p = Inr c) block cs"
      using parametersOfBlock_result by blast
    from Cons.IH [of "acc @ cs"] obtain ds where
      ds: "parametersOfTypes doc types (acc @ cs) = Inr ((acc @ cs) @ ds)"
      and built: "\<forall>c \<in> set ds. \<exists>type p. parameterConfig type p = Inr c"
      by blast
    have "\<forall>c \<in> set cs. \<exists>type p. parameterConfig type p = Inr c"
      using all by (auto simp: list_all2_conv_all_nth in_set_conv_nth) blast
    with built have "\<forall>c \<in> set (cs @ ds). \<exists>type p. parameterConfig type p = Inr c"
      by auto
    moreover have "parametersOfTypes doc (t # types) acc = Inr (acc @ (cs @ ds))"
      using Some cs ds by simp
    ultimately show ?thesis by blast
  qed
qed

text \<open>
  Claim C5. Building the parameters never throws, and every emitted Parameter object whose
  \<^verbatim>\<open>in\<close> is \<^verbatim>\<open>path\<close> has \<^verbatim>\<open>required: true\<close>. When the documentation has
  \<^verbatim>\<open>pathParams\<close>, its declarations are the first emitted parameters, in order, each
  with \<^verbatim>\<open>in: 'path'\<close> and \<^verbatim>\<open>required: true\<close>, whatever \<^verbatim>\<open>required\<close> the
  declaration gave.
\<close>

theorem path_parameters_required:
  "\<exists>parameters. getParametersFromConfig doc = Inr parameters \<and>
     (\<forall>c \<in> set parameters.
        get ''in'' c = Some (JStr ''path'') \<longrightarrow> get ''required'' c = Some (JBool True)) \<and>
     (\<forall>ps. d_pathParams doc = Some ps \<longrightarrow>
        list_all2 (\<lambda>p c. get ''name'' c = Some (JStr (p_name p)) \<and>
                          get ''in'' c = Some (JStr ''path'') \<and>
                          get ''required'' c = Some (JBool True))
          ps (take (length ps) parameters))"
proof -
  obtain cs where run: "getParametersFromConfig doc = Inr cs"
    and built: "\<forall>c \<in> set cs. \<exists>type p. parameterConfig type p = Inr c"
    using parametersOfTypes_result [of doc "[''path'', ''query'', ''header'', ''cookie'']" "[]"]
    by (auto simp: getParametersFromConfig_def)
  have req: "get ''required'' c = Some (JBool True)"
    if "c \<in> set cs" and "get ''in'' c = Some (JStr ''path'')" for c
  proof -
    from built that(1) obtain type p where c: "parameterConfig type p = Inr c" by blast
    from parameterConfig_members(1) [OF c] that(2) have "type = ''path''" by simp
    with parameterConfig_members(3) [OF c] show ?thesis by simp
  qed
  have first: "list_all2 (\<lambda>p c. get ''name'' c = Some (JStr (p_name p)) \<and>
                          get ''in'' c = Some (JStr ''path'') \<and>
                          get ''required'' c = Some (JBool True))
          ps (take (length ps) cs)" if ps: "d_pathParams doc = Some ps" for ps
  proof -
    obtain bs where bs: "parametersOfBlock ''path'' ps [] = Inr ([] @ bs)"
      and all: "list_all2 (\<lambda>p c. parameterConfig ''path'' p = Inr c) ps bs"
      using parametersOfBlock_result by blast
    obtain ds where ds: "parametersOfTypes doc [''query'', ''header'', ''cookie''] bs = Inr (bs @ ds)"
      using parametersOfTypes_result by blast
    have "paramBlock ''path'' doc = Some ps"
      using ps by (simp add: paramBlock_def)
    with bs ds have "getParametersFromConfig doc = Inr (bs @ ds)"
      by (simp add: getParametersFromConfig_def)
    with run have cs: "cs = bs @ ds" by simp
    have len: "length bs = length ps"
      using all by (simp add: list_all2_lengthD)
    have "list_all2 (\<lambda>p c. get ''name'' c = Some (JStr (p_name p)) \<and>
                          get ''in'' c = Some (JStr ''path'') \<and>
                          get ''required'' c = Some (JBool True)) ps bs"
      using all
      by (rule list_all2_mono) (simp add: parameterConfig_members)
    with cs len show ?thesis by simp
  qed
  from run req first show ?thesis by blast
qed

text \<open>The declaration \<^verbatim>\<open>{ name: 'id', required: false }\<close> under \<^verbatim>\<open>pathParams\<close>.\<close>

theorem path_parameters_required_witness:
  "d_pathParams documentation_path_id = Some [(parameter_named ''id'')\<lparr>p_required := Some False\<rparr>] \<and>
   (\<exists>parameters. getParametersFromConfig documentation_path_id = Inr parameters \<and>
      get ''in'' (hd parameters) = Some (JStr ''path'') \<and>
      get ''required'' (hd parameters) = Some (JBool True))"
proof -
  have d: "d_pathParams documentation_path_id = Some [(parameter_named ''id'')\<lparr>p_required := Some False\<rparr>]"
    by (simp add: documentation_path_id_def)
  from path_parameters_required [of documentation_path_id] obtain parameters where
    run: "getParametersFromConfig documentation_path_id = Inr parameters"
    and "\<forall>ps. d_pathParams documentation_path_id = Some ps \<longrightarrow>
        list_all2 (\<lambda>p c. get ''name'' c = Some (JStr (p_name p)) \<and>
                          get ''in'' c = Some (JStr ''path'') \<and>
                          get ''required'' c = Some (JBool True))
          ps (take (length ps) parameters)"
    by blast
  with d have "list_all2 (\<lambda>p c. get ''name'' c = Some (JStr (p_name p)) \<and>
                          get ''in'' c = Some (JStr ''path'') \<and>
                          get ''required'' c = Some (JBool True))
          [(parameter_named ''id'')\<lparr>p_required := Some False\<rparr>] (take 1 parameters)"
    by fastforce
  then have "get ''in'' (hd parameters) = Some (JStr ''path'') \<and>
      get ''required'' (hd parameters) = Some (JBool True)"
    by (cases parameters) (auto simp: list_all2_Cons1)
  with d run show ?thesis by blast
qed

text \<open>
  Claim C2. The emitted \<^verbatim>\<open>explode\<close> is
  \<^verbatim>\<open>parameter.explode ? parameter.explode : parameter.style === 'form'\<close> (lemma \<open>parameterConfig_explode\<close>): an explicit
  \<^verbatim>\<open>explode: false\<close> is falsy and falls through to the default of the style. For
  \<^verbatim>\<open>{ name: 'q', style: 'form', explode: false }\<close> under \<^verbatim>\<open>queryParams\<close> the emitted
  object has \<^verbatim>\<open>explode: true\<close>, where the claim says \<^verbatim>\<open>false\<close>.
\<close>

theorem explode_false_with_form_is_emitted_true:
  "parameterConfig ''query'' parameter_form_not_exploded =
     Inr (JObj [(''name'', JStr ''q''), (''in'', JStr ''query''), (''description'', JStr []),
                (''required'', JBool False), (''allowEmptyValue'', JBool False),
                (''style'', JStr ''form''), (''explode'', JBool True)])"
  by (simp add: parameterConfig_def parameterSchema_def parameterStyle_def parameterDeprecated_def
      parameterKind_def parameterExamples_def parameterContent_def parameter_form_not_exploded_def
      parameter_named_def set_prop_def)

section \<open>Errors\<close>

text \<open>Whatever building an operation throws is a \<^verbatim>\<open>TypeError\<close>: the explicit
  \<^verbatim>\<open>throw\<close> of \<^verbatim>\<open>getRequestBodiesFromConfig\<close> is behind the test of
  \<^verbatim>\<open>requestModels\<close> in \<^verbatim>\<open>getOperationFromConfig\<close>.\<close>

lemma cleanSchema_error: "cleanSchema sc = Inl e \<Longrightarrow> e = TypeError"
  by (auto simp: cleanSchema_def split: json.splits option.splits if_splits)

lemma requestBodiesOfTypes_error:
  "requestBodiesOfTypes cfg doc rm ks acc = Inl e \<Longrightarrow> e = TypeError"
  by (induction ks arbitrary: acc) (auto simp: Let_def split: option.splits list.splits)

lemma responseContentOfKeys_error:
  "responseContentOfKeys cfg rm ks acc = Inl e \<Longrightarrow> e = TypeError"
  by (induction ks arbitrary: acc) (auto split: option.splits)

lemma getResponseContent_error: "getResponseContent cfg rm = Inl e \<Longrightarrow> e = TypeError"
  by (auto simp: getResponseContent_def split: option.splits dest: responseContentOfKeys_error)

lemma headersOfResponse_error: "headersOfResponse hs acc = Inl e \<Longrightarrow> e = TypeError"
  by (induction hs arbitrary: acc)
     (auto simp: Let_def split: option.splits if_splits sum.splits dest: cleanSchema_error)

lemma methodResponseConfig_error: "methodResponseConfig cfg r = Inl e \<Longrightarrow> e = TypeError"
  by (auto simp: methodResponseConfig_def Let_def split: option.splits sum.splits
      dest: getResponseContent_error headersOfResponse_error)

lemma responsesOfList_error: "responsesOfList cfg rs acc = Inl e \<Longrightarrow> e = TypeError"
  by (induction rs arbitrary: acc) (auto split: sum.splits dest: methodResponseConfig_error)

lemma getResponsesFromConfig_error: "getResponsesFromConfig cfg doc = Inl e \<Longrightarrow> e = TypeError"
  by (auto simp: getResponsesFromConfig_def split: option.splits dest: responsesOfList_error)

lemma documentationSecurity_error: "documentationSecurity cfg doc obj = Inl e \<Longrightarrow> e = TypeError"
  by (auto simp: documentationSecurity_def Let_def split: option.splits if_splits)

lemma getParametersFromConfig_total: "\<exists>ps. getParametersFromConfig doc = Inr ps"
  using parametersOfTypes_result [of doc "[''path'', ''query'', ''header'', ''cookie'']" "[]"]
  by (auto simp: getParametersFromConfig_def)

lemma getOperationFromConfig_Inr:
  assumes "getOperationFromConfig cfg fn c = Inr op"
  obtains doc obj ps rs obj' where
    "o_documentation c = Some doc"
    "(case d_requestModels doc of
        Some rm \<Rightarrow> (\<exists>rb. getRequestBodiesFromConfig cfg doc = Inr rb \<and>
                        obj = set_prop ''requestBody'' rb (operationObj fn doc))
      | None \<Rightarrow> obj = operationObj fn doc)"
    "getParametersFromConfig doc = Inr ps"
    "getResponsesFromConfig cfg doc = Inr rs"
    "documentationSecurity cfg doc
       (authorizerSecurity cfg c (set_prop ''responses'' rs (set_prop ''parameters'' (JArr ps) obj))) = Inr obj'"
    "op = JObj obj'"
  using assms unfolding getOperationFromConfig_def
  by (auto split: option.splits sum.splits)

lemma getOperationFromConfig_error:
  assumes "getOperationFromConfig cfg fn c = Inl e"
  shows "e = TypeError"
proof (cases "o_documentation c")
  case None
  with assms show ?thesis by (simp add: getOperationFromConfig_def)
next
  case (Some doc)
  have rb: "e = TypeError" if "d_requestModels doc = Some rm" "getRequestBodiesFromConfig cfg doc = Inl e" for rm
    using that by (auto simp: getRequestBodiesFromConfig_def dest: requestBodiesOfTypes_error)
  from assms Some show ?thesis
    unfolding getOperationFromConfig_def
    using getParametersFromConfig_total [of doc]
    by (auto split: option.splits sum.splits
        dest: rb getResponsesFromConfig_error documentationSecurity_error)
qed

section \<open>Operations\<close>

lemma map_of_operationObj:
  "k \<notin> {''operationId'', ''summary'', ''description'', ''tags'', ''deprecated''} \<Longrightarrow>
     map_of (operationObj fn doc) k = None"
  by (simp add: operationObj_def Let_def map_of_set_prop split: option.split)

lemma map_of_authorizerSecurity:
  "k \<noteq> ''security'' \<Longrightarrow> map_of (authorizerSecurity cfg c obj) k = map_of obj k"
  by (simp add: authorizerSecurity_def map_of_set_prop split: option.split)

lemma map_of_documentationSecurity:
  "documentationSecurity cfg doc obj = Inr obj' \<Longrightarrow> k \<noteq> ''security'' \<Longrightarrow> map_of obj' k = map_of obj k"
  by (auto simp: documentationSecurity_def Let_def map_of_set_prop split: option.splits if_splits)

text \<open>
  Claim C1, as the code has it. For a documentation block with \<^verbatim>\<open>requestBody\<close> set and
  no \<^verbatim>\<open>requestModels\<close>, building the operation never raises the fatal error: the
  request-body builder is called only when \<^verbatim>\<open>requestModels\<close> is present, so the
  operation, when it is built, has no \<^verbatim>\<open>requestBody\<close> member. The error is what
  \<^verbatim>\<open>getRequestBodiesFromConfig\<close> itself returns for such a block.
\<close>

theorem request_body_without_models:
  assumes "o_documentation c = Some doc"
    and "d_requestBody doc = Some body"
    and "d_requestModels doc = None"
  shows "getOperationFromConfig cfg fn c \<noteq> Inl RequiredRequestModels \<and>
         (\<forall>op. getOperationFromConfig cfg fn c = Inr op \<longrightarrow> get ''requestBody'' op = None) \<and>
         getRequestBodiesFromConfig cfg doc = Inl RequiredRequestModels"
proof -
  have 1: "getOperationFromConfig cfg fn c \<noteq> Inl RequiredRequestModels"
    using getOperationFromConfig_error [of cfg fn c RequiredRequestModels] by auto
  have 2: "get ''requestBody'' op = None" if "getOperationFromConfig cfg fn c = Inr op" for op
  proof -
    from that obtain doc' obj ps rs obj' where
      d: "o_documentation c = Some doc'"
      and o: "(case d_requestModels doc' of
        Some rm \<Rightarrow> (\<exists>rb. getRequestBodiesFromConfig cfg doc' = Inr rb \<and>
                        obj = set_prop ''requestBody'' rb (operationObj fn doc'))
      | None \<Rightarrow> obj = operationObj fn doc')"
      and s: "documentationSecurity cfg doc'
       (authorizerSecurity cfg c (set_prop ''responses'' rs (set_prop ''parameters'' (JArr ps) obj))) = Inr obj'"
      and op: "op = JObj obj'"
      by (rule getOperationFromConfig_Inr)
    from d assms(1) have "doc' = doc" by simp
    with o assms(3) have obj: "obj = operationObj fn doc" by simp
    show ?thesis
      by (simp add: op map_of_documentationSecurity [OF s] map_of_authorizerSecurity
          map_of_set_prop obj map_of_operationObj)
  qed
  have 3: "getRequestBodiesFromConfig cfg doc = Inl RequiredRequestModels"
    using assms(3) by (simp add: getRequestBodiesFromConfig_def)
  from 1 2 3 show ?thesis by blast
qed

theorem request_body_without_models_witness:
  "o_documentation operation_body_only = Some documentation_body_only \<and>
   d_requestBody documentation_body_only = Some \<lparr>b_description = Some ''A pet''\<rparr> \<and>
   d_requestModels documentation_body_only = None \<and>
   getOperationFromConfig config_secured ''createPet'' operation_body_only =
     Inr (JObj [(''operationId'', JStr ''createPet''), (''parameters'', JArr []),
                (''responses'', JObj [])]) \<and>
   get ''requestBody''
     (JObj [(''operationId'', JStr ''createPet''), (''parameters'', JArr []),
            (''responses'', JObj [])]) = None \<and>
   getRequestBodiesFromConfig config_secured documentation_body_only = Inl RequiredRequestModels"
proof -
  have h1: "o_documentation operation_body_only = Some documentation_body_only"
    by (simp add: operation_body_only_def)
  have h2: "d_requestBody documentation_body_only = Some \<lparr>b_description = Some ''A pet''\<rparr>"
    by (simp add: documentation_body_only_def)
  have h3: "d_requestModels documentation_body_only = None"
    by (simp add: documentation_body_only_def documentation_empty_def)
  have run: "getOperationFromConfig config_secured ''createPet'' operation_body_only =
     Inr (JObj [(''operationId'', JStr ''createPet''), (''parameters'', JArr []),
                (''responses'', JObj [])])"
    by code_simp
  note t = request_body_without_models [OF h1 h2 h3, of config_secured "''createPet''"]
  note absent = t [THEN conjunct2, THEN conjunct1, rule_format, OF run]
  note raised = t [THEN conjunct2, THEN conjunct2]
  from h1 h2 h3 run absent raised show ?thesis by (intro conjI)
qed


text \<open>Claim C1, as stated, fails: for the function \<^verbatim>\<open>createPet\<close>, whose event documents
  a request body and no request models, \<^verbatim>\<open>readFunctions\<close> raises nothing and the paths
  tree has the operation.\<close>

theorem request_body_without_models_counterexample:
  "d_requestBody documentation_body_only \<noteq> None \<and>
   d_requestModels documentation_body_only = None \<and>
   readFunctions config_secured [function_body_only] (JObj []) =
     Inr (JObj [(''/pets'',
                 JObj [(''post'',
                        JObj [(''operationId'', JStr ''createPet''),
                              (''parameters'', JArr []),
                              (''responses'', JObj [])])])])"
  by code_simp

text \<open>
  Claim C10. When the configuration declares no \<^verbatim>\<open>security\<close> and the documentation
  block declares a \<^verbatim>\<open>security\<close> list, the second resolution rule reads
  \<^verbatim>\<open>this.config.security.filter\<close> of \<^verbatim>\<open>undefined\<close>: resolving the security throws a
  \<^verbatim>\<open>TypeError\<close> for every operation object, and so does building the operation.
\<close>

theorem documented_security_without_definitions:
  assumes "c_security cfg = None"
    and "o_documentation c = Some doc"
    and "d_security doc = Some names"
  shows "documentationSecurity cfg doc obj = Inl TypeError \<and>
         getOperationFromConfig cfg fn c = Inl TypeError"
proof -
  have sec: "documentationSecurity cfg doc obj = Inl TypeError" for obj
    using assms(1,3) by (simp add: documentationSecurity_def)
  have "getOperationFromConfig cfg fn c = Inl TypeError"
  proof (cases "getOperationFromConfig cfg fn c")
    case (Inl e)
    then show ?thesis using getOperationFromConfig_error by blast
  next
    case (Inr op)
    then obtain doc' obj ps rs obj' where
      "o_documentation c = Some doc'"
      "documentationSecurity cfg doc'
       (authorizerSecurity cfg c (set_prop ''responses'' rs (set_prop ''parameters'' (JArr ps) obj))) = Inr obj'"
      by (rule getOperationFromConfig_Inr)
    with assms(2) sec show ?thesis by simp
  qed
  with sec show ?thesis by blast
qed

theorem documented_security_without_definitions_witness:
  "c_security config_unsecured = None \<and>
   o_documentation operation_oauth = Some documentation_oauth \<and>
   d_security documentation_oauth = Some [''oauth''] \<and>
   getOperationFromConfig config_unsecured ''listPets'' operation_oauth = Inl TypeError"
proof -
  have h1: "c_security config_unsecured = None"
    by (simp add: config_unsecured_def)
  have h2: "o_documentation operation_oauth = Some documentation_oauth"
    by (simp add: operation_oauth_def)
  have h3: "d_security documentation_oauth = Some [''oauth'']"
    by (simp add: documentation_oauth_def)
  from documented_security_without_definitions [OF h1 h2 h3, of "[]" "''listPets''"] h1 h2 h3
  show ?thesis by blast
qed

lemma security_of_authorizerSecurity:
  "map_of (authorizerSecurity cfg c obj) ''security'' =
     (case o_authorizer c of
        None \<Rightarrow> map_of obj ''security''
      | Some a \<Rightarrow>
          if authorizerTruthy a
          then (case c_security cfg of
                  None \<Rightarrow> map_of obj ''security''
                | Some defs \<Rightarrow>
                    (case find (\<lambda>s. s_authorizerName s = authorizerNameOf a) defs of
                       None \<Rightarrow> map_of obj ''security''
                     | Some s \<Rightarrow> Some (JArr [securityRequirement s])))
          else map_of obj ''security'')"
  by (simp add: authorizerSecurity_def map_of_set_prop split: option.split)

lemma security_of_documentationSecurity:
  "documentationSecurity cfg doc obj = Inr obj' \<Longrightarrow>
   map_of obj' ''security'' =
     (case d_security doc of
        None \<Rightarrow> map_of obj ''security''
      | Some names \<Rightarrow>
          (case c_security cfg of
             None \<Rightarrow> None
           | Some defs \<Rightarrow>
               if filter (\<lambda>s. s_name s \<in> set names) defs = [] then map_of obj ''security''
               else Some (JArr (map securityRequirement (filter (\<lambda>s. s_name s \<in> set names) defs)))))"
  by (auto simp: documentationSecurity_def Let_def map_of_set_prop split: option.splits if_splits)

text \<open>
  Claim C3. For an operation that is built: when the documentation declares a
  \<^verbatim>\<open>security\<close> list and some declared security definition has one of its names, the
  \<^verbatim>\<open>security\<close> member is one \<^verbatim>\<open>{ name: [] }\<close> entry for each such definition, in the
  order of the configuration, whatever the authorizer rule had set. When no definition
  matches the authorizer and none matches the documented names, the operation has no
  \<^verbatim>\<open>security\<close> member.
\<close>

theorem operation_security:
  assumes "getOperationFromConfig cfg fn c = Inr op"
    and "o_documentation c = Some doc"
  shows "(\<forall>defs names.
            c_security cfg = Some defs \<and> d_security doc = Some names \<and>
            filter (\<lambda>s. s_name s \<in> set names) defs \<noteq> [] \<longrightarrow>
            get ''security'' op =
              Some (JArr (map securityRequirement (filter (\<lambda>s. s_name s \<in> set names) defs)))) \<and>
         ((\<forall>a defs. o_authorizer c = Some a \<and> authorizerTruthy a \<and> c_security cfg = Some defs \<longrightarrow>
             find (\<lambda>s. s_authorizerName s = authorizerNameOf a) defs = None) \<and>
          (\<forall>defs names. c_security cfg = Some defs \<and> d_security doc = Some names \<longrightarrow>
             filter (\<lambda>s. s_name s \<in> set names) defs = []) \<longrightarrow>
          get ''security'' op = None)"
proof -
  from assms(1) obtain doc' obj ps rs obj' where
    d: "o_documentation c = Some doc'"
    and o: "(case d_requestModels doc' of
        Some rm \<Rightarrow> (\<exists>rb. getRequestBodiesFromConfig cfg doc' = Inr rb \<and>
                        obj = set_prop ''requestBody'' rb (operationObj fn doc'))
      | None \<Rightarrow> obj = operationObj fn doc')"
    and s: "documentationSecurity cfg doc'
       (authorizerSecurity cfg c (set_prop ''responses'' rs (set_prop ''parameters'' (JArr ps) obj))) = Inr obj'"
    and op: "op = JObj obj'"
    by (rule getOperationFromConfig_Inr)
  from d assms(2) have doc: "doc' = doc" by simp
  have "map_of obj ''security'' = None"
    using o by (auto simp: map_of_set_prop map_of_operationObj split: option.splits)
  then have base: "map_of (set_prop ''responses'' rs (set_prop ''parameters'' (JArr ps) obj)) ''security'' = None"
    by (simp add: map_of_set_prop)
  note sec = security_of_documentationSecurity [OF s, unfolded doc]
  have both: "get ''security'' op =
              Some (JArr (map securityRequirement (filter (\<lambda>s. s_name s \<in> set names) defs)))"
    if "c_security cfg = Some defs" "d_security doc = Some names"
       "filter (\<lambda>s. s_name s \<in> set names) defs \<noteq> []" for defs names
    using that by (simp add: op sec)
  have neither: "get ''security'' op = None"
    if r1: "\<forall>a defs. o_authorizer c = Some a \<and> authorizerTruthy a \<and> c_security cfg = Some defs \<longrightarrow>
             find (\<lambda>s. s_authorizerName s = authorizerNameOf a) defs = None"
    and r2: "\<forall>defs names. c_security cfg = Some defs \<and> d_security doc = Some names \<longrightarrow>
             filter (\<lambda>s. s_name s \<in> set names) defs = []"
  proof -
    have a: "map_of (authorizerSecurity cfg c (set_prop ''responses'' rs (set_prop ''parameters'' (JArr ps) obj)))
               ''security'' = None"
      using r1 base by (simp add: security_of_authorizerSecurity split: option.split)
    show ?thesis
      using r2 a by (simp add: op sec split: option.split)
  qed
  from both neither show ?thesis by blast
qed

text \<open>Both rules apply: the authorizer \<^verbatim>\<open>auth\<close> matches \<^verbatim>\<open>apiKey\<close>, the documentation
  names \<^verbatim>\<open>oauth\<close>; the operation requires \<^verbatim>\<open>oauth\<close> only.\<close>

theorem operation_security_witness:
  "getOperationFromConfig config_secured ''listPets'' operation_oauth =
     Inr (JObj [(''operationId'', JStr ''listPets''), (''parameters'', JArr []),
                (''responses'', JObj []),
                (''security'', JArr [JObj [(''oauth'', JArr [])]])]) \<and>
   o_documentation operation_oauth = Some documentation_oauth \<and>
   o_authorizer operation_oauth = Some (AuthorizerName ''auth'') \<and>
   find (\<lambda>s. s_authorizerName s = authorizerNameOf (AuthorizerName ''auth''))
     (the (c_security config_secured)) \<noteq> None \<and>
   get ''security''
     (JObj [(''operationId'', JStr ''listPets''), (''parameters'', JArr []),
            (''responses'', JObj []),
            (''security'', JArr [JObj [(''oauth'', JArr [])]])]) =
     Some (JArr (map securityRequirement
       [\<lparr>s_name = ''oauth'', s_authorizerName = None, s_rest = []\<rparr>]))"
proof -
  have h1: "getOperationFromConfig config_secured ''listPets'' operation_oauth =
     Inr (JObj [(''operationId'', JStr ''listPets''), (''parameters'', JArr []),
                (''responses'', JObj []),
                (''security'', JArr [JObj [(''oauth'', JArr [])]])])"
    by code_simp
  have h2: "o_documentation operation_oauth = Some documentation_oauth"
    by (simp add: operation_oauth_def)
  have h3: "o_authorizer operation_oauth = Some (AuthorizerName ''auth'')"
    by (simp add: operation_oauth_def)
  have h4: "find (\<lambda>s. s_authorizerName s = authorizerNameOf (AuthorizerName ''auth''))
     (the (c_security config_secured)) \<noteq> None"
    by (simp add: config_secured_def authorizerNameOf_def)
  have h5: "c_security config_secured =
      Some [\<lparr>s_name = ''apiKey'', s_authorizerName = Some ''auth'', s_rest = []\<rparr>,
            \<lparr>s_name = ''oauth'', s_authorizerName = None, s_rest = []\<rparr>] \<and>
     d_security documentation_oauth = Some [''oauth''] \<and>
     filter (\<lambda>s. s_name s \<in> set [''oauth''])
       [\<lparr>s_name = ''apiKey'', s_authorizerName = Some ''auth'', s_rest = []\<rparr>,
        \<lparr>s_name = ''oauth'', s_authorizerName = None, s_rest = []\<rparr>] \<noteq> []"
    by (simp add: config_secured_def documentation_oauth_def)
  from operation_security [OF h1 h2] h5
  have "get ''security''
     (JObj [(''operationId'', JStr ''listPets''), (''parameters'', JArr []),
            (''responses'', JObj []),
            (''security'', JArr [JObj [(''oauth'', JArr [])]])]) =
     Some (JArr (map securityRequirement (filter (\<lambda>s. s_name s \<in> set [''oauth''])
       [\<lparr>s_name = ''apiKey'', s_authorizerName = Some ''auth'', s_rest = []\<rparr>,
        \<lparr>s_name = ''oauth'', s_authorizerName = None, s_rest = []\<rparr>])))"
    by blast
  then have "get ''security''
     (JObj [(''operationId'', JStr ''listPets''), (''parameters'', JArr []),
            (''responses'', JObj []),
            (''security'', JArr [JObj [(''oauth'', JArr [])]])]) =
     Some (JArr (map securityRequirement
       [\<lparr>s_name = ''oauth'', s_authorizerName = None, s_rest = []\<rparr>]))"
    by simp
  with h1 h2 h3 h4 show ?thesis by blast
qed

section \<open>The merge law\<close>

text \<open>Merging a single member into an object, and the general law for a source with
  distinct keys (as every JavaScript object has): a key of one side only keeps its value,
  a shared key holds the merge of the two values.\<close>

lemma merge_members_single:
  "merge_members t [(k, v)] =
     (case map_of t k of None \<Rightarrow> t @ [(k, v)] | Some old \<Rightarrow> set_prop k (merge old v) t)"
  by simp

lemma map_of_merge_single:
  "map_of (merge_members t [(k, v)]) k' =
     (if k' = k then Some (case map_of t k of None \<Rightarrow> v | Some old \<Rightarrow> merge old v)
      else map_of t k')"
  by (cases "map_of t k") (auto simp: map_of_set_prop map_add_def split: option.splits)

lemma map_of_merge_members:
  "distinct (map fst s) \<Longrightarrow>
   map_of (merge_members t s) k =
     (case map_of s k of
        None \<Rightarrow> map_of t k
      | Some v \<Rightarrow> Some (case map_of t k of None \<Rightarrow> v | Some old \<Rightarrow> merge old v))"
proof (induction s arbitrary: t)
  case Nil
  then show ?case by simp
next
  case (Cons kv s)
  obtain k0 v0 where kv: "kv = (k0, v0)" by (cases kv)
  define t' where
    "t' = (case map_of t k0 of None \<Rightarrow> t @ [(k0, v0)] | Some old \<Rightarrow> set_prop k0 (merge old v0) t)"
  have t: "map_of t' j = (if j = k0 then Some (case map_of t k0 of None \<Rightarrow> v0 | Some old \<Rightarrow> merge old v0)
                          else map_of t j)" for j
    using map_of_merge_single [of t k0 v0 j] by (simp add: t'_def)
  from Cons.prems kv have d: "distinct (map fst s)" and n: "map_of s k0 = None"
    by (auto simp: map_of_eq_None_iff)
  have "map_of (merge_members t (kv # s)) k = map_of (merge_members t' s) k"
    by (simp add: kv t'_def)
  also have "\<dots> = (case map_of s k of
        None \<Rightarrow> map_of t' k
      | Some v \<Rightarrow> Some (case map_of t' k of None \<Rightarrow> v | Some old \<Rightarrow> merge old v))"
    by (rule Cons.IH [OF d])
  also have "\<dots> = (case map_of (kv # s) k of
        None \<Rightarrow> map_of t k
      | Some v \<Rightarrow> Some (case map_of t k of None \<Rightarrow> v | Some old \<Rightarrow> merge old v))"
    using n by (cases "k = k0") (simp_all add: kv t split: option.splits)
  finally show ?case .
qed

section \<open>Responses\<close>

lemma headersOfResponse_total: "\<exists>hs'. headersOfResponse hs acc = Inr hs'"
proof (induction hs arbitrary: acc)
  case Nil
  then show ?case by simp
next
  case (Cons h hs)
  show ?case
  proof (cases "h_schema h")
    case None
    with Cons.IH show ?thesis by (simp add: Let_def)
  next
    case (Some sc)
    show ?thesis
    proof (cases "truthy sc")
      case True
      then obtain cl where "cleanSchema sc = Inr cl" using cleanSchema_truthy by blast
      with Some True Cons.IH show ?thesis by (simp add: Let_def)
    next
      case False
      with Some Cons.IH show ?thesis by (simp add: Let_def)
    qed
  qed
qed

lemma responseContentOfKeys_result:
  assumes "c_models cfg = Some ms"
  shows "\<exists>content'. responseContentOfKeys cfg rm ks (JObj content) = Inr (JObj content') \<and>
           (\<forall>k. map_of content' k \<noteq> None \<longleftrightarrow>
                 map_of content k \<noteq> None \<or>
                 (k \<in> set ks \<and> (\<exists>nm. map_of rm k = Some nm \<and> nm \<in> m_name ` set ms)))"
proof (induction ks arbitrary: content)
  case Nil
  then show ?case by simp
next
  case (Cons key ks)
  show ?case
  proof (cases "map_of rm key")
    case None
    with Cons.IH [of content] assms show ?thesis by auto
  next
    case (Some nm)
    show ?thesis
    proof (cases "find (\<lambda>model. m_name model = nm) ms")
      case None
      then have "nm \<notin> m_name ` set ms" by (auto simp: find_None_iff)
      with Cons.IH [of content] assms Some None show ?thesis by auto
    next
      case (Some model)
      then have in_ms: "nm \<in> m_name ` set ms"
        by (auto simp: find_Some_iff image_iff)
      let ?c = "merge_members content [(key, attachExamples model (schemaRef nm))]"
      have step: "responseContentOfKeys cfg rm (key # ks) (JObj content) =
                  responseContentOfKeys cfg rm ks (JObj ?c)"
        using assms \<open>map_of rm key = Some nm\<close> Some by simp
      have keys: "map_of ?c k \<noteq> None \<longleftrightarrow> k = key \<or> map_of content k \<noteq> None" for k
        unfolding map_of_merge_single by simp
      from Cons.IH [of ?c] obtain content' where
        r: "responseContentOfKeys cfg rm ks (JObj ?c) = Inr (JObj content')"
        and iff: "\<forall>k. map_of content' k \<noteq> None \<longleftrightarrow>
                 map_of ?c k \<noteq> None \<or>
                 (k \<in> set ks \<and> (\<exists>nm. map_of rm k = Some nm \<and> nm \<in> m_name ` set ms))"
        by blast
      have "\<forall>k. map_of content' k \<noteq> None \<longleftrightarrow>
                 map_of content k \<noteq> None \<or>
                 (k \<in> set (key # ks) \<and> (\<exists>nm. map_of rm k = Some nm \<and> nm \<in> m_name ` set ms))"
        using iff keys \<open>map_of rm key = Some nm\<close> in_ms by auto
      with step r show ?thesis by simp
    qed
  qed
qed

lemma getResponseContent_result:
  assumes "c_models cfg = Some ms"
  shows "\<exists>content. getResponseContent cfg (Some rm) = Inr (JObj content) \<and>
           (\<forall>k. map_of content k \<noteq> None \<longleftrightarrow>
                 (\<exists>nm. map_of rm k = Some nm \<and> nm \<in> m_name ` set ms))"
proof -
  from responseContentOfKeys_result [OF assms, of rm "map fst rm" "[]"] obtain content where
    r: "responseContentOfKeys cfg rm (map fst rm) (JObj []) = Inr (JObj content)"
    and iff: "\<forall>k. map_of content k \<noteq> None \<longleftrightarrow>
                 (k \<in> set (map fst rm) \<and> (\<exists>nm. map_of rm k = Some nm \<and> nm \<in> m_name ` set ms))"
    by auto
  have "k \<in> set (map fst rm)" if "map_of rm k = Some nm" for k nm
    using that by (metis map_of_eq_None_iff option.distinct(1) set_map)
  with iff have "\<forall>k. map_of content k \<noteq> None \<longleftrightarrow>
                 (\<exists>nm. map_of rm k = Some nm \<and> nm \<in> m_name ` set ms)"
    by blast
  with r show ?thesis by (simp add: getResponseContent_def)
qed

lemma map_of_all_None: "(\<forall>k. map_of kvs k = None) \<Longrightarrow> kvs = []"
  by (cases kvs) (auto split: if_splits)

lemma methodResponseConfig_result:
  assumes "c_models cfg = Some ms" and "r_responseModels r = Some rm"
  shows "\<exists>entry content. methodResponseConfig cfg r = Inr (JObj entry) \<and>
           map_of entry ''content'' = Some (JObj content) \<and>
           (\<forall>k. map_of content k \<noteq> None \<longleftrightarrow>
                 (\<exists>nm. map_of rm k = Some nm \<and> nm \<in> m_name ` set ms))"
proof -
  from getResponseContent_result [OF assms(1), of rm] obtain content where
    c: "getResponseContent cfg (Some rm) = Inr (JObj content)"
    and iff: "\<forall>k. map_of content k \<noteq> None \<longleftrightarrow>
                 (\<exists>nm. map_of rm k = Some nm \<and> nm \<in> m_name ` set ms)"
    by blast
  show ?thesis
  proof (cases "r_responseHeaders r")
    case None
    with c iff assms(2) show ?thesis
      by (simp add: methodResponseConfig_def Let_def)
  next
    case (Some hs)
    obtain headers where "headersOfResponse hs [] = Inr headers"
      using headersOfResponse_total by blast
    with Some c iff assms(2) show ?thesis
      by (simp add: methodResponseConfig_def Let_def map_of_set_prop)
  qed
qed

lemma responsesOfList_result:
  assumes "\<forall>r \<in> set rs. \<exists>c. methodResponseConfig cfg r = Inr c"
  shows "\<exists>resps. responsesOfList cfg rs (JObj acc) = Inr (JObj resps) \<and>
           (\<forall>k. k \<notin> r_statusCode ` set rs \<longrightarrow> map_of resps k = map_of acc k) \<and>
           (\<forall>r \<in> set rs. map_of resps (r_statusCode r) \<noteq> None) \<and>
           (distinct (map r_statusCode rs) \<longrightarrow>
              (\<forall>r \<in> set rs. \<forall>c. map_of acc (r_statusCode r) = None \<and>
                    methodResponseConfig cfg r = Inr c \<longrightarrow>
                    map_of resps (r_statusCode r) = Some c))"
  using assms
proof (induction rs arbitrary: acc)
  case Nil
  then show ?case by simp
next
  case (Cons r0 rs)
  from Cons.prems obtain c0 where c0: "methodResponseConfig cfg r0 = Inr c0" by auto
  define acc' where "acc' = merge_members acc [(r_statusCode r0, c0)]"
  have acc': "map_of acc' k =
     (if k = r_statusCode r0
      then Some (case map_of acc (r_statusCode r0) of None \<Rightarrow> c0 | Some old \<Rightarrow> merge old c0)
      else map_of acc k)" for k
    unfolding acc'_def by (rule map_of_merge_single)
  have step: "responsesOfList cfg (r0 # rs) (JObj acc) = responsesOfList cfg rs (JObj acc')"
    using c0 by (simp add: acc'_def)
  from Cons.prems have "\<forall>r \<in> set rs. \<exists>c. methodResponseConfig cfg r = Inr c" by simp
  from Cons.IH [OF this, of acc'] obtain resps where
    run: "responsesOfList cfg rs (JObj acc') = Inr (JObj resps)"
    and other: "\<forall>k. k \<notin> r_statusCode ` set rs \<longrightarrow> map_of resps k = map_of acc' k"
    and present: "\<forall>r \<in> set rs. map_of resps (r_statusCode r) \<noteq> None"
    and exact: "distinct (map r_statusCode rs) \<longrightarrow>
              (\<forall>r \<in> set rs. \<forall>c. map_of acc' (r_statusCode r) = None \<and>
                    methodResponseConfig cfg r = Inr c \<longrightarrow>
                    map_of resps (r_statusCode r) = Some c)"
    by blast
  have 1: "\<forall>k. k \<notin> r_statusCode ` set (r0 # rs) \<longrightarrow> map_of resps k = map_of acc k"
    using other acc' by simp
  have 2: "\<forall>r \<in> set (r0 # rs). map_of resps (r_statusCode r) \<noteq> None"
  proof
    fix r assume "r \<in> set (r0 # rs)"
    show "map_of resps (r_statusCode r) \<noteq> None"
    proof (cases "r_statusCode r \<in> r_statusCode ` set rs")
      case True
      with present show ?thesis by auto
    next
      case False
      with \<open>r \<in> set (r0 # rs)\<close> have "r = r0" by auto
      with False other acc' show ?thesis by simp
    qed
  qed
  have 3: "map_of resps (r_statusCode r) = Some c"
    if d: "distinct (map r_statusCode (r0 # rs))" and r: "r \<in> set (r0 # rs)"
      and n: "map_of acc (r_statusCode r) = None" and c: "methodResponseConfig cfg r = Inr c" for r c
  proof (cases "r = r0")
    case True
    from d have "r_statusCode r0 \<notin> r_statusCode ` set rs" by simp
    with other have "map_of resps (r_statusCode r0) = map_of acc' (r_statusCode r0)" by simp
    with True n c c0 acc' show ?thesis by simp
  next
    case False
    with r have in_rs: "r \<in> set rs" by simp
    with d have "r_statusCode r \<noteq> r_statusCode r0" by (metis distinct.simps(2) image_eqI list.simps(9) set_map)
    with n acc' have "map_of acc' (r_statusCode r) = None" by simp
    with exact d in_rs c show ?thesis by simp
  qed
  have exact': "distinct (map r_statusCode (r0 # rs)) \<longrightarrow>
              (\<forall>r \<in> set (r0 # rs). \<forall>c. map_of acc (r_statusCode r) = None \<and>
                    methodResponseConfig cfg r = Inr c \<longrightarrow>
                    map_of resps (r_statusCode r) = Some c)"
    using 3 by blast
  have "responsesOfList cfg (r0 # rs) (JObj acc) = Inr (JObj resps)"
    using step run by simp
  with 1 2 exact' show ?case by (intro exI [of _ resps] conjI)
qed

text \<open>
  Claim C8, as the code has it. When the configuration declares a \<^verbatim>\<open>models\<close> list and
  every documented response has a \<^verbatim>\<open>responseModels\<close> map, building the responses
  does not raise and every status code has an entry. For distinct status codes, the
  \<^verbatim>\<open>content\<close> of the entry has a content type exactly when the model named for it
  is one that \<^verbatim>\<open>config.models\<close> declares, whether or not \<^verbatim>\<open>parse\<close> stored a schema
  for it: a content type whose model is not declared is omitted, and the map is empty
  when no name is declared.
\<close>

theorem unresolved_response_model_is_omitted:
  assumes "c_models cfg = Some ms"
    and "d_methodResponses doc = Some rs"
    and "\<forall>r \<in> set rs. r_responseModels r \<noteq> None"
  shows "\<exists>responses. getResponsesFromConfig cfg doc = Inr responses \<and>
     (\<forall>r \<in> set rs. get (r_statusCode r) responses \<noteq> None) \<and>
     (distinct (map r_statusCode rs) \<longrightarrow>
       (\<forall>r \<in> set rs. \<forall>rm. r_responseModels r = Some rm \<longrightarrow>
          (\<exists>entry content. get (r_statusCode r) responses = Some entry \<and>
             get ''content'' entry = Some (JObj content) \<and>
             (\<forall>k. map_of content k \<noteq> None \<longleftrightarrow>
                   (\<exists>nm. map_of rm k = Some nm \<and> nm \<in> m_name ` set ms)) \<and>
             ((\<forall>k nm. map_of rm k = Some nm \<longrightarrow> nm \<notin> m_name ` set ms) \<longrightarrow> content = []))))"
proof -
  have ok: "\<forall>r \<in> set rs. \<exists>c. methodResponseConfig cfg r = Inr c"
  proof
    fix r assume "r \<in> set rs"
    with assms(3) obtain rm where "r_responseModels r = Some rm" by auto
    from methodResponseConfig_result [OF assms(1) this] show "\<exists>c. methodResponseConfig cfg r = Inr c"
      by blast
  qed
  from responsesOfList_result [OF ok, of "[]"] obtain resps where
    run: "responsesOfList cfg rs (JObj []) = Inr (JObj resps)"
    and present: "\<forall>r \<in> set rs. map_of resps (r_statusCode r) \<noteq> None"
    and exact: "distinct (map r_statusCode rs) \<longrightarrow>
              (\<forall>r \<in> set rs. \<forall>c. methodResponseConfig cfg r = Inr c \<longrightarrow>
                    map_of resps (r_statusCode r) = Some c)"
    by auto
  have r: "getResponsesFromConfig cfg doc = Inr (JObj resps)"
    using assms(2) run by (simp add: getResponsesFromConfig_def)
  have "\<exists>entry content. get (r_statusCode r) (JObj resps) = Some entry \<and>
             get ''content'' entry = Some (JObj content) \<and>
             (\<forall>k. map_of content k \<noteq> None \<longleftrightarrow>
                   (\<exists>nm. map_of rm k = Some nm \<and> nm \<in> m_name ` set ms)) \<and>
             ((\<forall>k nm. map_of rm k = Some nm \<longrightarrow> nm \<notin> m_name ` set ms) \<longrightarrow> content = [])"
    if d: "distinct (map r_statusCode rs)" and in_rs: "r \<in> set rs"
      and rm: "r_responseModels r = Some rm" for r rm
  proof -
    from methodResponseConfig_result [OF assms(1) rm] obtain entry content where
      e: "methodResponseConfig cfg r = Inr (JObj entry)"
      and c: "map_of entry ''content'' = Some (JObj content)"
      and iff: "\<forall>k. map_of content k \<noteq> None \<longleftrightarrow>
                 (\<exists>nm. map_of rm k = Some nm \<and> nm \<in> m_name ` set ms)"
      by blast
    from exact d in_rs e have "get (r_statusCode r) (JObj resps) = Some (JObj entry)" by simp
    moreover have "content = []" if "\<forall>k nm. map_of rm k = Some nm \<longrightarrow> nm \<notin> m_name ` set ms"
      using that iff by (intro map_of_all_None) blast
    ultimately show ?thesis using c iff by auto
  qed
  then have 3: "distinct (map r_statusCode rs) \<longrightarrow>
       (\<forall>r \<in> set rs. \<forall>rm. r_responseModels r = Some rm \<longrightarrow>
          (\<exists>entry content. get (r_statusCode r) (JObj resps) = Some entry \<and>
             get ''content'' entry = Some (JObj content) \<and>
             (\<forall>k. map_of content k \<noteq> None \<longleftrightarrow>
                   (\<exists>nm. map_of rm k = Some nm \<and> nm \<in> m_name ` set ms)) \<and>
             ((\<forall>k nm. map_of rm k = Some nm \<longrightarrow> nm \<notin> m_name ` set ms) \<longrightarrow> content = [])))"
    by blast
  have 2: "\<forall>r \<in> set rs. get (r_statusCode r) (JObj resps) \<noteq> None"
    using present by simp
  from r 2 3 show ?thesis by (intro exI [of _ "JObj resps"] conjI)
qed

theorem unresolved_response_model_is_omitted_witness:
  "c_models config_secured = Some [model_pet] \<and>
   d_methodResponses documentation_missing_model = Some [response_missing_model] \<and>
   r_responseModels response_missing_model = Some [(''application/json'', ''Missing'')] \<and>
   ''Missing'' \<notin> m_name ` set [model_pet] \<and>
   (\<exists>responses entry.
      getResponsesFromConfig config_secured documentation_missing_model = Inr responses \<and>
      get ''200'' responses = Some entry \<and> get ''content'' entry = Some (JObj []))"
proof -
  have h1: "c_models config_secured = Some [model_pet]"
    by (simp add: config_secured_def)
  have h2: "d_methodResponses documentation_missing_model = Some [response_missing_model]"
    by (simp add: documentation_missing_model_def)
  have h3: "\<forall>r \<in> set [response_missing_model]. r_responseModels r \<noteq> None"
    by (simp add: response_missing_model_def)
  have h4: "r_responseModels response_missing_model = Some [(''application/json'', ''Missing'')]"
    by (simp add: response_missing_model_def)
  have h5: "''Missing'' \<notin> m_name ` set [model_pet]"
    by (simp add: model_pet_def)
  have h6: "\<forall>k nm. map_of [(''application/json'', ''Missing'')] k = Some nm \<longrightarrow>
              nm \<notin> m_name ` set [model_pet]"
  proof (intro allI impI)
    fix k nm
    assume "map_of [(''application/json'', ''Missing'')] k = Some nm"
    then have "nm = ''Missing''" by (simp split: if_splits)
    with h5 show "nm \<notin> m_name ` set [model_pet]" by simp
  qed
  from unresolved_response_model_is_omitted [OF h1 h2 h3] obtain responses where
    all: "getResponsesFromConfig config_secured documentation_missing_model = Inr responses \<and>
     (\<forall>r \<in> set [response_missing_model]. get (r_statusCode r) responses \<noteq> None) \<and>
     (distinct (map r_statusCode [response_missing_model]) \<longrightarrow>
       (\<forall>r \<in> set [response_missing_model]. \<forall>rm. r_responseModels r = Some rm \<longrightarrow>
          (\<exists>entry content. get (r_statusCode r) responses = Some entry \<and>
             get ''content'' entry = Some (JObj content) \<and>
             (\<forall>k. map_of content k \<noteq> None \<longleftrightarrow>
                   (\<exists>nm. map_of rm k = Some nm \<and> nm \<in> m_name ` set [model_pet])) \<and>
             ((\<forall>k nm. map_of rm k = Some nm \<longrightarrow> nm \<notin> m_name ` set [model_pet]) \<longrightarrow> content = []))))"
    ..
  note run = all [THEN conjunct1]
  note each = all [THEN conjunct2, THEN conjunct2]
  have d: "distinct (map r_statusCode [response_missing_model])" by simp
  have m: "response_missing_model \<in> set [response_missing_model]" by simp
  from each [rule_format, OF d m h4] obtain entry where
    "\<exists>content. get (r_statusCode response_missing_model) responses = Some entry \<and>
       get ''content'' entry = Some (JObj content) \<and>
       (\<forall>k. map_of content k \<noteq> None \<longleftrightarrow>
             (\<exists>nm. map_of [(''application/json'', ''Missing'')] k = Some nm \<and>
                   nm \<in> m_name ` set [model_pet])) \<and>
       ((\<forall>k nm. map_of [(''application/json'', ''Missing'')] k = Some nm \<longrightarrow>
                  nm \<notin> m_name ` set [model_pet]) \<longrightarrow> content = [])"
    ..
  then obtain content where
    ec: "get (r_statusCode response_missing_model) responses = Some entry \<and>
       get ''content'' entry = Some (JObj content) \<and>
       (\<forall>k. map_of content k \<noteq> None \<longleftrightarrow>
             (\<exists>nm. map_of [(''application/json'', ''Missing'')] k = Some nm \<and>
                   nm \<in> m_name ` set [model_pet])) \<and>
       ((\<forall>k nm. map_of [(''application/json'', ''Missing'')] k = Some nm \<longrightarrow>
                  nm \<notin> m_name ` set [model_pet]) \<longrightarrow> content = [])"
    ..
  note e = ec [THEN conjunct1]
  note c = ec [THEN conjunct2, THEN conjunct1]
  note empty = ec [THEN conjunct2, THEN conjunct2, THEN conjunct2]
  from empty h6 have "content = []" by (rule mp)
  with c have c': "get ''content'' entry = Some (JObj [])" by (simp only:)
  have "r_statusCode response_missing_model = ''200''"
    by (simp add: response_missing_model_def)
  with e have e': "get ''200'' responses = Some entry" by (simp only:)
  from run e' c' have "\<exists>responses entry.
      getResponsesFromConfig config_secured documentation_missing_model = Inr responses \<and>
      get ''200'' responses = Some entry \<and> get ''content'' entry = Some (JObj [])"
    by (intro exI conjI)
  with h1 h2 h4 h5 show ?thesis by (intro conjI)
qed

text \<open>
  Claim C8, as stated, fails in two ways. A configuration without \<^verbatim>\<open>models\<close> passes
  \<^verbatim>\<open>parse\<close>, and \<^verbatim>\<open>readFunctions\<close> then throws a \<^verbatim>\<open>TypeError\<close> on the response
  that names a model, at \<^verbatim>\<open>this.config.models.find\<close>. And a model declared without a
  schema is skipped by \<^verbatim>\<open>parse\<close>, so \<^verbatim>\<open>components.schemas\<close> has no entry for it, yet
  the response that names it keeps its content type, with a reference to that
  schema.
\<close>

theorem unresolved_response_model_counterexample:
  "map_sum id
     (\<lambda>g. readFunctions
            (resolve
               (fst (parse collaborators_plain
                       (fst (constructor config_without_models heap_model_from_type))
                       (snd (constructor config_without_models heap_model_from_type))))
               (g_config g))
            [function_missing_model] (JObj []))
     (snd (parse collaborators_plain
             (fst (constructor config_without_models heap_model_from_type))
             (snd (constructor config_without_models heap_model_from_type)))) =
   Inr (Inl TypeError) \<and>
   map_sum id
     (\<lambda>g. (schemaOf (g_definition g) ''Missing'',
           getResponsesFromConfig
             (resolve
                (fst (parse collaborators_plain
                        (fst (constructor config_by_reference heap_model_without_schema))
                        (snd (constructor config_by_reference heap_model_without_schema))))
                (g_config g))
             documentation_missing_model))
     (snd (parse collaborators_plain
             (fst (constructor config_by_reference heap_model_without_schema))
             (snd (constructor config_by_reference heap_model_without_schema)))) =
   Inr (None,
        Inr (JObj [(''200'',
                    JObj [(''description'', JStr ''Status 200 Response''),
                          (''content'',
                             JObj [(''application/json'',
                                    JObj [(''schema'',
                                           JObj [(''$ref'', JStr ''#/components/schemas/Missing'')])])])])]))"
proof -
  have a: "parse collaborators_plain
             (fst (constructor config_without_models heap_model_from_type))
             (snd (constructor config_without_models heap_model_from_type)) =
           (heap_model_from_type,
            Inr \<lparr>g_config = config_without_models,
                 g_definition = merge (JObj [(''openapi'', JStr version), (''components'', JObj [])])
                                  (skeleton collaborators_plain config_without_models)\<rparr>)"
    by (simp add: parse_def constructor_def clone_config_def config_without_models_def
        config_by_reference_def isIterable_def Let_def)
  have r: "resolve heap_model_from_type config_without_models = config_secured\<lparr>c_models := None, c_security := None\<rparr>"
    by (simp add: resolve_def config_without_models_def config_by_reference_def config_secured_def)
  have b: "readFunctions (config_secured\<lparr>c_models := None, c_security := None\<rparr>)
             [function_missing_model] (JObj []) = Inl TypeError"
    by code_simp
  have 1: "map_sum id
     (\<lambda>g. readFunctions
            (resolve
               (fst (parse collaborators_plain
                       (fst (constructor config_without_models heap_model_from_type))
                       (snd (constructor config_without_models heap_model_from_type))))
               (g_config g))
            [function_missing_model] (JObj []))
     (snd (parse collaborators_plain
             (fst (constructor config_without_models heap_model_from_type))
             (snd (constructor config_without_models heap_model_from_type)))) =
   Inr (Inl TypeError)"
    by (simp add: a r b del: readFunctions.simps)
  have 2: "map_sum id
     (\<lambda>g. (schemaOf (g_definition g) ''Missing'',
           getResponsesFromConfig
             (resolve
                (fst (parse collaborators_plain
                        (fst (constructor config_by_reference heap_model_without_schema))
                        (snd (constructor config_by_reference heap_model_without_schema))))
                (g_config g))
             documentation_missing_model))
     (snd (parse collaborators_plain
             (fst (constructor config_by_reference heap_model_without_schema))
             (snd (constructor config_by_reference heap_model_without_schema)))) =
   Inr (None,
        Inr (JObj [(''200'',
                    JObj [(''description'', JStr ''Status 200 Response''),
                          (''content'',
                             JObj [(''application/json'',
                                    JObj [(''schema'',
                                           JObj [(''$ref'', JStr ''#/components/schemas/Missing'')])])])])]))"
    by (simp add: parse_def constructor_def clone_config_def config_by_reference_def
      heap_model_without_schema_def model_without_schema_def alloc_def clone_model_def
      isIterable_def skeleton_def version_def collaborators_plain_def
      set_prop_def schemaOf_def Let_def resolve_def
      getResponsesFromConfig_def documentation_missing_model_def documentation_empty_def
      response_missing_model_def methodResponseConfig_def getResponseContent_def
      attachExamples_def schemaRef_def)
  from 1 2 show ?thesis by (rule conjI)
qed


section \<open>Reading the functions\<close>

lemma lower_char_idem: "lower_char (lower_char c) = lower_char c"
  by (simp add: lower_char_def Let_def)

lemma toLowerCase_idem: "toLowerCase (toLowerCase s) = toLowerCase s"
  by (simp add: toLowerCase_def lower_char_idem)

lemma documentedPath_slash: "startsWith (documentedPath q) ''/''"
  by (simp add: documentedPath_def startsWith_def)

lemma documentedPath_cases:
  "startsWith q ''/'' \<Longrightarrow> documentedPath q = q"
  "\<not> startsWith q ''/'' \<Longrightarrow> documentedPath q = CHR ''/'' # q"
  by (simp_all add: documentedPath_def)

lemma entry_merge_pathConfig:
  "entry (merge T (pathConfig c op)) p m =
     (if p = documentedPath (o_path c) \<and> m = toLowerCase (o_method c)
      then Some (case entry T p m of None \<Rightarrow> op | Some old \<Rightarrow> merge old op)
      else entry T p m)"
proof (cases T)
  case (JObj t)
  show ?thesis
  proof (cases "map_of t (documentedPath (o_path c))")
    case None
    with JObj show ?thesis
      by (simp add: entry_def pathConfig_def map_add_def split: option.splits)
  next
    case (Some item)
    show ?thesis
    proof (cases item)
      case (JObj ms)
      with \<open>T = JObj t\<close> Some show ?thesis
        by (simp add: entry_def pathConfig_def map_of_set_prop map_of_merge_single
            del: merge_members.simps split: option.splits)
    qed (use \<open>T = JObj t\<close> Some in
          \<open>simp_all add: entry_def pathConfig_def map_of_set_prop split: option.splits\<close>)
  qed
qed (simp_all add: entry_def pathConfig_def)

lemma get_merge_pathConfig:
  "get p (merge T (pathConfig c op)) \<noteq> None \<longleftrightarrow>
     p = documentedPath (o_path c) \<or> get p T \<noteq> None"
proof (cases T)
  case (JObj t)
  then show ?thesis
    by (cases "map_of t (documentedPath (o_path c))")
       (auto simp: pathConfig_def map_of_set_prop map_add_def split: option.splits if_splits)
qed (simp_all add: pathConfig_def)

text \<open>One step of the inner loop: the event is skipped when it has no documentation, and
  otherwise its fragment is merged into the paths.\<close>

lemma readEvents_Cons:
  assumes "readEvents cfg fn (e # es) T = Inr T'"
  obtains c where "httpEventConfigOf e = Some c" "o_documentation c = None"
      "readEvents cfg fn es T = Inr T'"
  | c d op where "httpEventConfigOf e = Some c" "o_documentation c = Some d"
      "getOperationFromConfig cfg (operationIdOf d fn) c = Inr op"
      "readEvents cfg fn es (merge T (pathConfig c op)) = Inr T'"
  using assms by (auto split: option.splits sum.splits)

lemma readEvents_keys:
  assumes "readEvents cfg fn es T = Inr T'"
  shows "(entry T' p m \<noteq> None \<longleftrightarrow>
            entry T p m \<noteq> None \<or>
            (\<exists>e \<in> set es. \<exists>c. httpEventConfigOf e = Some c \<and> o_documentation c \<noteq> None \<and>
                p = documentedPath (o_path c) \<and> m = toLowerCase (o_method c))) \<and>
         (get p T' \<noteq> None \<longleftrightarrow>
            get p T \<noteq> None \<or>
            (\<exists>e \<in> set es. \<exists>c. httpEventConfigOf e = Some c \<and> o_documentation c \<noteq> None \<and>
                p = documentedPath (o_path c)))"
  using assms
proof (induction es arbitrary: T)
  case Nil
  then show ?case by simp
next
  case (Cons e es)
  from Cons.prems show ?case
  proof (cases rule: readEvents_Cons)
    case (1 c)
    from Cons.IH [OF 1(3)] 1(1,2) show ?thesis by auto
  next
    case (2 c d op)
    have a: "entry (merge T (pathConfig c op)) p m \<noteq> None \<longleftrightarrow>
            (p = documentedPath (o_path c) \<and> m = toLowerCase (o_method c)) \<or> entry T p m \<noteq> None"
      by (auto simp: entry_merge_pathConfig)
    note b = get_merge_pathConfig [of p T c op]
    from Cons.IH [OF 2(4)] a b 2(1,2) show ?thesis by auto
  qed
qed

lemma readFunctions_keys:
  assumes "readFunctions cfg fcs T = Inr T'"
  shows "(entry T' p m \<noteq> None \<longleftrightarrow>
            entry T p m \<noteq> None \<or>
            (\<exists>fc \<in> set fcs. \<exists>e \<in> set (getHttpEvents (f_events fc)). \<exists>c.
                httpEventConfigOf e = Some c \<and> o_documentation c \<noteq> None \<and>
                p = documentedPath (o_path c) \<and> m = toLowerCase (o_method c))) \<and>
         (get p T' \<noteq> None \<longleftrightarrow>
            get p T \<noteq> None \<or>
            (\<exists>fc \<in> set fcs. \<exists>e \<in> set (getHttpEvents (f_events fc)). \<exists>c.
                httpEventConfigOf e = Some c \<and> o_documentation c \<noteq> None \<and>
                p = documentedPath (o_path c)))"
  using assms
proof (induction fcs arbitrary: T)
  case Nil
  then show ?case by simp
next
  case (Cons fc fcs)
  from Cons.prems obtain T1 where
    1: "readEvents cfg (f_functionName fc) (getHttpEvents (f_events fc)) T = Inr T1"
    and 2: "readFunctions cfg fcs T1 = Inr T'"
    by (auto split: sum.splits)
  from readEvents_keys [OF 1, of p m] Cons.IH [OF 2] show ?case by auto
qed

text \<open>
  Claim C6. After \<^verbatim>\<open>readFunctions\<close> on an empty paths map, the (path, method) entries of
  the map are exactly those of the documented http events, the path being the declared
  path with one \<^verbatim>\<open>/\<close> prepended when it does not start with one (and unchanged when
  it does), the method the lower-cased declared method. So every path key begins with
  \<^verbatim>\<open>/\<close> and every method key is lower-case.
\<close>

theorem documented_keys_are_normalised:
  assumes "readFunctions cfg fcs (JObj []) = Inr paths"
  shows "(\<forall>p m. entry paths p m \<noteq> None \<longleftrightarrow>
            (\<exists>fc \<in> set fcs. \<exists>e \<in> set (getHttpEvents (f_events fc)). \<exists>c.
                httpEventConfigOf e = Some c \<and> o_documentation c \<noteq> None \<and>
                p = documentedPath (o_path c) \<and> m = toLowerCase (o_method c))) \<and>
         (\<forall>p. get p paths \<noteq> None \<longrightarrow> startsWith p ''/'') \<and>
         (\<forall>p m. entry paths p m \<noteq> None \<longrightarrow> toLowerCase m = m) \<and>
         (\<forall>q. documentedPath q = (if startsWith q ''/'' then q else CHR ''/'' # q))"
proof -
  note keys = readFunctions_keys [OF assms]
  have 1: "\<forall>p m. entry paths p m \<noteq> None \<longleftrightarrow>
            (\<exists>fc \<in> set fcs. \<exists>e \<in> set (getHttpEvents (f_events fc)). \<exists>c.
                httpEventConfigOf e = Some c \<and> o_documentation c \<noteq> None \<and>
                p = documentedPath (o_path c) \<and> m = toLowerCase (o_method c))"
    using keys [THEN conjunct1] by (simp add: entry_def)
  have 2: "\<forall>p. get p paths \<noteq> None \<longrightarrow> startsWith p ''/''"
    using keys [THEN conjunct2] by (auto simp: documentedPath_slash)
  have 3: "\<forall>p m. entry paths p m \<noteq> None \<longrightarrow> toLowerCase m = m"
    using 1 by (auto simp: toLowerCase_idem)
  have 4: "\<forall>q. documentedPath q = (if startsWith q ''/'' then q else CHR ''/'' # q)"
    by (simp add: documentedPath_def)
  from 1 2 3 4 show ?thesis by (intro conjI)
qed

theorem documented_keys_are_normalised_witness:
  "readFunctions config_secured [function_get_pet] (JObj []) =
     Inr (JObj [(''/pets/{id}'', JObj [(''get'', operation_object_get_pet)])]) \<and>
   o_path operation_get_pet = ''pets/{id}'' \<and> o_method operation_get_pet = ''GET'' \<and>
   entry (JObj [(''/pets/{id}'', JObj [(''get'', operation_object_get_pet)])])
     ''/pets/{id}'' ''get'' \<noteq> None \<and>
   startsWith ''/pets/{id}'' ''/'' \<and>
   toLowerCase ''get'' = ''get''"
proof -
  have run: "readFunctions config_secured [function_get_pet] (JObj []) =
     Inr (JObj [(''/pets/{id}'', JObj [(''get'', operation_object_get_pet)])])"
    by code_simp
  have p: "o_path operation_get_pet = ''pets/{id}''" and m: "o_method operation_get_pet = ''GET''"
    by (simp_all add: operation_get_pet_def)
  have e: "entry (JObj [(''/pets/{id}'', JObj [(''get'', operation_object_get_pet)])])
     ''/pets/{id}'' ''get'' \<noteq> None"
    by (simp add: entry_def)
  have g: "get ''/pets/{id}'' (JObj [(''/pets/{id}'', JObj [(''get'', operation_object_get_pet)])]) \<noteq> None"
    by simp
  note t = documented_keys_are_normalised [OF run]
  note slash = t [THEN conjunct2, THEN conjunct1, rule_format, OF g]
  note lower = t [THEN conjunct2, THEN conjunct2, THEN conjunct1, rule_format, OF e]
  from run p m e slash lower show ?thesis by (intro conjI)
qed


lemma getHttpEvents_single:
  "httpEventConfigOf e = Some c \<Longrightarrow> getHttpEvents [e] = [e]"
  by (auto simp: getHttpEvents_def httpEventConfigOf_def split: option.splits)

text \<open>
  Claim C4. Two functions, each with one documented http event, at different paths or at
  the same path with different methods: \<^verbatim>\<open>readFunctions\<close> returns a paths tree that has
  both entries. Each is the operation of its function, merged over what the tree had at
  that path and method before, and every other entry of the tree is unchanged.
\<close>

theorem both_entries_are_kept:
  assumes "f_events f1 = [e1]" and "httpEventConfigOf e1 = Some c1"
    and "o_documentation c1 = Some d1"
    and "getOperationFromConfig cfg (operationIdOf d1 (f_functionName f1)) c1 = Inr op1"
    and "f_events f2 = [e2]" and "httpEventConfigOf e2 = Some c2"
    and "o_documentation c2 = Some d2"
    and "getOperationFromConfig cfg (operationIdOf d2 (f_functionName f2)) c2 = Inr op2"
    and "documentedPath (o_path c1) \<noteq> documentedPath (o_path c2) \<or>
         toLowerCase (o_method c1) \<noteq> toLowerCase (o_method c2)"
  shows "\<exists>paths. readFunctions cfg [f1, f2] T = Inr paths \<and>
     entry paths (documentedPath (o_path c1)) (toLowerCase (o_method c1)) =
       Some (case entry T (documentedPath (o_path c1)) (toLowerCase (o_method c1)) of
               None \<Rightarrow> op1 | Some old \<Rightarrow> merge old op1) \<and>
     entry paths (documentedPath (o_path c2)) (toLowerCase (o_method c2)) =
       Some (case entry T (documentedPath (o_path c2)) (toLowerCase (o_method c2)) of
               None \<Rightarrow> op2 | Some old \<Rightarrow> merge old op2) \<and>
     (\<forall>p m. \<not> (p = documentedPath (o_path c1) \<and> m = toLowerCase (o_method c1)) \<and>
            \<not> (p = documentedPath (o_path c2) \<and> m = toLowerCase (o_method c2)) \<longrightarrow>
            entry paths p m = entry T p m)"
proof -
  define T1 where "T1 = merge T (pathConfig c1 op1)"
  define T2 where "T2 = merge T1 (pathConfig c2 op2)"
  have 1: "readEvents cfg (f_functionName f1) (getHttpEvents (f_events f1)) T = Inr T1"
    using assms(1-4) by (simp add: getHttpEvents_single T1_def)
  have 2: "readEvents cfg (f_functionName f2) (getHttpEvents (f_events f2)) T1 = Inr T2"
    using assms(5-8) by (simp add: getHttpEvents_single T2_def)
  have run: "readFunctions cfg [f1, f2] T = Inr T2"
    using 1 2 by simp
  have e: "entry T2 p m =
     (if p = documentedPath (o_path c2) \<and> m = toLowerCase (o_method c2)
      then Some (case entry T p m of None \<Rightarrow> op2 | Some old \<Rightarrow> merge old op2)
      else if p = documentedPath (o_path c1) \<and> m = toLowerCase (o_method c1)
      then Some (case entry T p m of None \<Rightarrow> op1 | Some old \<Rightarrow> merge old op1)
      else entry T p m)" for p m
    using assms(9) by (auto simp: T2_def T1_def entry_merge_pathConfig)
  have a: "entry T2 (documentedPath (o_path c1)) (toLowerCase (o_method c1)) =
       Some (case entry T (documentedPath (o_path c1)) (toLowerCase (o_method c1)) of
               None \<Rightarrow> op1 | Some old \<Rightarrow> merge old op1)"
    using assms(9) by (auto simp: e)
  have b: "entry T2 (documentedPath (o_path c2)) (toLowerCase (o_method c2)) =
       Some (case entry T (documentedPath (o_path c2)) (toLowerCase (o_method c2)) of
               None \<Rightarrow> op2 | Some old \<Rightarrow> merge old op2)"
    by (simp add: e)
  have c: "\<forall>p m. \<not> (p = documentedPath (o_path c1) \<and> m = toLowerCase (o_method c1)) \<and>
            \<not> (p = documentedPath (o_path c2) \<and> m = toLowerCase (o_method c2)) \<longrightarrow>
            entry T2 p m = entry T p m"
    by (simp add: e)
  from run a b c show ?thesis by (intro exI [of _ T2] conjI)
qed

text \<open>\<^verbatim>\<open>getPet\<close> and \<^verbatim>\<open>putPet\<close> share the path \<^verbatim>\<open>/pets/{id}\<close>.\<close>

theorem both_entries_are_kept_witness:
  "f_events function_get_pet = [\<lparr>e_http = Some operation_get_pet, e_httpApi = None\<rparr>] \<and>
   f_events function_put_pet = [\<lparr>e_http = None, e_httpApi = Some operation_put_pet\<rparr>] \<and>
   documentedPath (o_path operation_get_pet) = documentedPath (o_path operation_put_pet) \<and>
   toLowerCase (o_method operation_get_pet) \<noteq> toLowerCase (o_method operation_put_pet) \<and>
   (\<exists>paths. readFunctions config_secured [function_get_pet, function_put_pet] (JObj []) = Inr paths \<and>
      entry paths ''/pets/{id}'' ''get'' = Some operation_object_get_pet \<and>
      entry paths ''/pets/{id}'' ''put'' = Some operation_object_put_pet)"
proof -
  have e1: "f_events function_get_pet = [\<lparr>e_http = Some operation_get_pet, e_httpApi = None\<rparr>]"
    by (simp add: function_get_pet_def)
  have c1: "httpEventConfigOf \<lparr>e_http = Some operation_get_pet, e_httpApi = None\<rparr> = Some operation_get_pet"
    by (simp add: httpEventConfigOf_def)
  have d1: "o_documentation operation_get_pet = Some documentation_get_pet"
    by (simp add: operation_get_pet_def)
  have o1: "getOperationFromConfig config_secured
              (operationIdOf documentation_get_pet (f_functionName function_get_pet)) operation_get_pet =
            Inr operation_object_get_pet"
    by code_simp
  have e2: "f_events function_put_pet = [\<lparr>e_http = None, e_httpApi = Some operation_put_pet\<rparr>]"
    by (simp add: function_put_pet_def)
  have c2: "httpEventConfigOf \<lparr>e_http = None, e_httpApi = Some operation_put_pet\<rparr> = Some operation_put_pet"
    by (simp add: httpEventConfigOf_def)
  have d2: "o_documentation operation_put_pet = Some documentation_path_id"
    by (simp add: operation_put_pet_def)
  have o2: "getOperationFromConfig config_secured
              (operationIdOf documentation_path_id (f_functionName function_put_pet)) operation_put_pet =
            Inr operation_object_put_pet"
    by code_simp
  have p1: "documentedPath (o_path operation_get_pet) = ''/pets/{id}''"
    and p2: "documentedPath (o_path operation_put_pet) = ''/pets/{id}''"
    and m1: "toLowerCase (o_method operation_get_pet) = ''get''"
    and m2: "toLowerCase (o_method operation_put_pet) = ''put''"
    by code_simp+
  have same: "documentedPath (o_path operation_get_pet) = documentedPath (o_path operation_put_pet)"
    by (simp only: p1 p2)
  have differ: "toLowerCase (o_method operation_get_pet) \<noteq> toLowerCase (o_method operation_put_pet)"
    by (simp add: m1 m2)
  then have keys: "documentedPath (o_path operation_get_pet) \<noteq> documentedPath (o_path operation_put_pet) \<or>
         toLowerCase (o_method operation_get_pet) \<noteq> toLowerCase (o_method operation_put_pet)"
    by (rule disjI2)
  have en: "entry (JObj []) p m = None" for p m
    by (simp add: entry_def)
  note kept = both_entries_are_kept [OF e1 c1 d1 o1 e2 c2 d2 o2 keys, of "JObj []",
      unfolded p1 p2 m1 m2 en option.case]
  have "\<exists>paths. readFunctions config_secured [function_get_pet, function_put_pet] (JObj []) = Inr paths \<and>
      entry paths ''/pets/{id}'' ''get'' = Some operation_object_get_pet \<and>
      entry paths ''/pets/{id}'' ''put'' = Some operation_object_put_pet"
    using kept by (elim exE conjE, intro exI conjI)
  with e1 e2 same differ show ?thesis by (intro conjI)
qed

section \<open>Model schemas\<close>

text \<open>What \<^verbatim>\<open>cleanSchema\<close> removes is a \<^verbatim>\<open>$schema\<close> member with a truthy value; so
  no schema that \<^verbatim>\<open>parse\<close> stores has one.\<close>

lemma cleanSchema_strips_truthy:
  assumes "cleanSchema sc = Inr c" and "get ''$schema'' c = Some v"
  shows "\<not> truthy v"
proof (cases sc)
  case (JObj kvs)
  show ?thesis
  proof (cases "map_of kvs ''$schema''")
    case None
    with JObj assms show ?thesis by (auto simp: cleanSchema_def clone_id)
  next
    case (Some w)
    with JObj assms show ?thesis
      by (cases "truthy w") (auto simp: cleanSchema_def clone_id delete_prop_def delete_conv')
  qed
qed (use assms in \<open>auto simp: cleanSchema_def clone_id\<close>)

lemma schemaOf_setSchema:
  assumes "setSchema n s d = Inr d'"
  shows "schemaOf d' k = (if k = n then Some s else schemaOf d k)"
  using assms
  by (auto simp: setSchema_def schemaOf_def map_of_set_prop
      split: json.splits option.splits)

lemma registerSchema_stored:
  assumes "registerSchema x n sc d = Inr d'"
    and "\<forall>k s v. schemaOf d k = Some s \<and> get ''$schema'' s = Some v \<longrightarrow> \<not> truthy v"
  shows "\<forall>k s v. schemaOf d' k = Some s \<and> get ''$schema'' s = Some v \<longrightarrow> \<not> truthy v"
proof -
  from assms(1) obtain cleaned where
    c: "cleanSchema (x_dereference x sc) = Inr cleaned" and s: "setSchema n cleaned d = Inr d'"
    by (auto simp: registerSchema_def split: sum.splits)
  show ?thesis
    using assms(2) cleanSchema_strips_truthy [OF c]
    by (auto simp: schemaOf_setSchema [OF s] split: if_splits)
qed

lemma parseModels_stored:
  assumes "parseModels x rs h d = (h', Inr d')"
    and "\<forall>k s v. schemaOf d k = Some s \<and> get ''$schema'' s = Some v \<longrightarrow> \<not> truthy v"
  shows "\<forall>k s v. schemaOf d' k = Some s \<and> get ''$schema'' s = Some v \<longrightarrow> \<not> truthy v"
  using assms
proof (induction rs arbitrary: h d)
  case Nil
  then show ?case by simp
next
  case (Cons r rs)
  show ?case
  proof (cases "m_tsSchema (objects h r)")
    case (Some ts)
    define h1 where
      "h1 = h\<lparr>objects := (objects h)
               (r := (objects h r)\<lparr>m_schema := Some (x_generateSchema x ts), m_tsSchema := None\<rparr>)\<rparr>"
    from Cons.prems(1) Some obtain d1 where
      reg: "registerSchema x (m_name (objects h r)) (x_generateSchema x ts) d = Inr d1"
      and rest: "parseModels x rs h1 d1 = (h', Inr d')"
      by (auto simp: Let_def h1_def split: sum.splits)
    from Cons.IH [OF rest registerSchema_stored [OF reg Cons.prems(2)]] show ?thesis .
  next
    case None
    show ?thesis
    proof (cases "m_schema (objects h r)")
      case None
      with \<open>m_tsSchema (objects h r) = None\<close> Cons.prems(1) have "parseModels x rs h d = (h', Inr d')"
        by (simp add: Let_def)
      from Cons.IH [OF this Cons.prems(2)] show ?thesis .
    next
      case (Some sc)
      show ?thesis
      proof (cases "truthy sc")
        case False
        with Some \<open>m_tsSchema (objects h r) = None\<close> Cons.prems(1)
        have "parseModels x rs h d = (h', Inr d')"
          by (simp add: Let_def)
        from Cons.IH [OF this Cons.prems(2)] show ?thesis .
      next
        case True
        with Some \<open>m_tsSchema (objects h r) = None\<close> Cons.prems(1) obtain d1 where
          reg: "registerSchema x (m_name (objects h r)) sc d = Inr d1"
          and rest: "parseModels x rs h d1 = (h', Inr d')"
          by (auto simp: Let_def split: sum.splits)
        from Cons.IH [OF rest registerSchema_stored [OF reg Cons.prems(2)]] show ?thesis .
      qed
    qed
  qed
qed

lemma schemaOf_seeded:
  "schemaOf (merge (JObj [(''openapi'', JStr version), (''components'', JObj [])]) (skeleton x c)) k = None"
  by (simp add: skeleton_def schemaOf_def set_prop_def)

lemma parse_stored:
  assumes "constructor config h = (g, h1)" and "parse x g h1 = (h2, Inr g')"
    and "schemaOf (g_definition g') k = Some s" and "get ''$schema'' s = Some v"
  shows "\<not> truthy v"
proof -
  from assms(1) have d: "g_definition g = JObj [(''openapi'', JStr version), (''components'', JObj [])]"
    by (auto simp: constructor_def split: prod.splits)
  have seeded: "\<forall>k s v. schemaOf (merge (g_definition g) (skeleton x (g_config g))) k = Some s \<and>
                  get ''$schema'' s = Some v \<longrightarrow> \<not> truthy v"
    by (simp add: d schemaOf_seeded)
  show ?thesis
  proof (cases "c_models (g_config g)")
    case None
    with assms(2) have "g_definition g' = merge (g_definition g) (skeleton x (g_config g))"
      by (auto simp: parse_def isIterable_def Let_def)
    with seeded assms(3,4) show ?thesis by simp
  next
    case (Some rs)
    with assms(2) obtain d' where
      p: "parseModels x rs h1 (merge (g_definition g) (skeleton x (g_config g))) = (h2, Inr d')"
      and g': "g_definition g' = d'"
      by (auto simp: parse_def isIterable_def Let_def split: prod.splits sum.splits)
    from parseModels_stored [OF p seeded] g' assms(3,4) show ?thesis by blast
  qed
qed

text \<open>
  Claim C7. \<^verbatim>\<open>cleanSchema\<close> tests \<^verbatim>\<open>if (cleanedSchema.$schema)\<close>, so a \<^verbatim>\<open>$schema\<close>
  member with a falsy value stays. For the model
  \<^verbatim>\<open>{ name: 'Pet', schema: { $schema: '', type: 'object' } }\<close> and a dereferencer that
  returns the schema as it is, \<^verbatim>\<open>parse\<close> succeeds and \<^verbatim>\<open>components.schemas.Pet\<close>
  still has the \<^verbatim>\<open>$schema\<close> key, where the claim says it has none.
\<close>

theorem empty_schema_key_is_kept:
  "map_sum id (\<lambda>g. schemaOf (g_definition g) ''Pet'')
     (snd (parse collaborators_plain
             (fst (constructor config_by_reference heap_model_empty_schema_key))
             (snd (constructor config_by_reference heap_model_empty_schema_key)))) =
   Inr (Some (JObj [(''$schema'', JStr []), (''type'', JStr ''object'')]))"
  by (simp add: parse_def constructor_def clone_config_def config_by_reference_def
      heap_model_empty_schema_key_def model_empty_schema_key_def alloc_def clone_model_def
      isIterable_def skeleton_def version_def collaborators_plain_def registerSchema_def
      cleanSchema_def setSchema_def set_prop_def schemaOf_def Let_def)

section \<open>The caller's configuration\<close>

lemma alloc_frame:
  assumes "alloc m h = (r, h')"
  shows "r = next_ref h" and "next_ref h' = Suc (next_ref h)"
    and "\<And>a. a \<noteq> next_ref h \<Longrightarrow> objects h' a = objects h a"
    and "objects h' (next_ref h) = m"
  using assms by (auto simp: alloc_def)

lemma clone_models_frame:
  assumes "clone_models rs h = (rs', h')"
  shows "next_ref h \<le> next_ref h' \<and>
         (\<forall>a < next_ref h. objects h' a = objects h a) \<and>
         (\<forall>r \<in> set rs'. next_ref h \<le> r \<and> r < next_ref h')"
  using assms
proof (induction rs arbitrary: h rs' h')
  case Nil
  then show ?case by simp
next
  case (Cons r rs)
  obtain r1 h1 where a: "alloc (clone_model (objects h r)) h = (r1, h1)"
    by (cases "alloc (clone_model (objects h r)) h")
  obtain rs2 h2 where c: "clone_models rs h1 = (rs2, h2)"
    by (cases "clone_models rs h1")
  from Cons.prems a c have res: "rs' = r1 # rs2" "h' = h2" by simp_all
  note f = alloc_frame [OF a]
  from Cons.IH [OF c] have
    i1: "next_ref h1 \<le> next_ref h2"
    and i2: "\<forall>a < next_ref h1. objects h2 a = objects h1 a"
    and i3: "\<forall>r \<in> set rs2. next_ref h1 \<le> r \<and> r < next_ref h2"
    by simp_all
  have 1: "next_ref h \<le> next_ref h'"
    using i1 f(2) res by simp
  have 2: "\<forall>a < next_ref h. objects h' a = objects h a"
    using i2 f(2,3) res by simp
  have 3: "\<forall>r \<in> set rs'. next_ref h \<le> r \<and> r < next_ref h'"
    using i1 i3 f(1,2) res by auto
  from 1 2 3 show ?case by (intro conjI)
qed

lemma clone_config_frame:
  assumes "clone_config c h = (c', h')"
  shows "(\<forall>a < next_ref h. objects h' a = objects h a) \<and>
         (\<forall>rs. c_models c' = Some rs \<longrightarrow> (\<forall>r \<in> set rs. next_ref h \<le> r))"
proof (cases "c_models c")
  case None
  with assms show ?thesis by (auto simp: clone_config_def)
next
  case (Some rs)
  obtain rs' h1 where m: "clone_models rs h = (rs', h1)"
    by (cases "clone_models rs h")
  with assms Some have "c_models c' = Some rs'" "h' = h1"
    by (auto simp: clone_config_def)
  with clone_models_frame [OF m] show ?thesis by auto
qed

lemma parseModels_frame:
  assumes "parseModels x rs h d = (h', res)"
  shows "a \<notin> set rs \<Longrightarrow> objects h' a = objects h a"
  using assms
proof (induction rs arbitrary: h d)
  case Nil
  then show ?case by simp
next
  case (Cons r rs)
  from Cons.prems(1) have ar: "a \<noteq> r" and ars: "a \<notin> set rs" by simp_all
  show ?case
  proof (cases "m_tsSchema (objects h r)")
    case None
    show ?thesis
    proof (cases "m_schema (objects h r)")
      case None
      with \<open>m_tsSchema (objects h r) = None\<close> Cons.prems(2) Cons.IH [OF ars] show ?thesis
        by (simp add: Let_def)
    next
      case (Some sc)
      with \<open>m_tsSchema (objects h r) = None\<close> Cons.prems(2) Cons.IH [OF ars] show ?thesis
        by (auto simp: Let_def split: if_splits sum.splits)
    qed
  next
    case (Some ts)
    define h1 where
      "h1 = h\<lparr>objects := (objects h)
               (r := (objects h r)\<lparr>m_schema := Some (x_generateSchema x ts), m_tsSchema := None\<rparr>)\<rparr>"
    have h1: "objects h1 a = objects h a"
      using ar by (simp add: h1_def)
    from Some Cons.prems(2) Cons.IH [OF ars, of h1] h1 show ?thesis
      by (auto simp: Let_def h1_def split: sum.splits)
  qed
qed

lemma parse_frame:
  assumes "parse x g h = (h', res)"
    and "\<forall>rs. c_models (g_config g) = Some rs \<longrightarrow> a \<notin> set rs"
  shows "objects h' a = objects h a"
proof (cases "c_models (g_config g)")
  case None
  with assms show ?thesis by (simp add: parse_def isIterable_def)
next
  case (Some rs)
  with assms(2) have a: "a \<notin> set rs" by simp
  obtain h1 r1 where p: "parseModels x rs h (merge (g_definition g) (skeleton x (g_config g))) = (h1, r1)"
    by (cases "parseModels x rs h (merge (g_definition g) (skeleton x (g_config g)))")
  with assms(1) Some have "h' = h1"
    by (auto simp: parse_def isIterable_def Let_def split: sum.splits)
  with parseModels_frame [OF p a] show ?thesis by simp
qed

text \<open>Without the copy the writes would reach the caller: \<^verbatim>\<open>parse\<close> on a generator
  that holds the caller's own reference 0 rewrites the object there.\<close>

lemma parse_writes_through_references:
  "m_tsSchema (objects heap_model_from_type 0) \<noteq> None \<and>
   m_tsSchema (objects (fst (parse collaborators_plain
       \<lparr>g_config = config_by_reference,
        g_definition = JObj [(''openapi'', JStr version), (''components'', JObj [])]\<rparr>
       heap_model_from_type)) 0) = None"
  by (simp add: parse_def config_by_reference_def
      heap_model_from_type_def model_from_type_def
      isIterable_def skeleton_def version_def collaborators_plain_def registerSchema_def
      cleanSchema_def setSchema_def set_prop_def Let_def)

text \<open>The copy the constructor takes has the value of the original.\<close>

lemma clone_model_id: "clone_model m = m"
  by (cases m) (simp add: clone_model_def clone_id option.map_ident
      cong: option.map_cong)

lemma map_option_clone: "map_option clone v = v"
  by (cases v) (simp_all add: clone_id)

lemma clone_models_copy:
  assumes "clone_models rs h = (rs', h')" and "\<forall>r \<in> set rs. r < next_ref h"
  shows "map (objects h') rs' = map (objects h) rs"
  using assms
proof (induction rs arbitrary: h rs' h')
  case Nil
  then show ?case by simp
next
  case (Cons r rs)
  obtain r1 h1 where a: "alloc (clone_model (objects h r)) h = (r1, h1)"
    by (cases "alloc (clone_model (objects h r)) h")
  obtain rs2 h2 where c: "clone_models rs h1 = (rs2, h2)"
    by (cases "clone_models rs h1")
  from Cons.prems(1) a c have res: "rs' = r1 # rs2" "h' = h2" by simp_all
  note f = alloc_frame [OF a]
  from Cons.prems(2) f(2) have below: "\<forall>r \<in> set rs. r < next_ref h1" by auto
  from Cons.prems(2) f(3) have same: "map (objects h1) rs = map (objects h) rs" by auto
  from clone_models_frame [OF c] f(1,2) have "objects h2 r1 = objects h1 r1" by simp
  with f(1,4) have first: "objects h2 r1 = objects h r" by (simp add: clone_model_id)
  from Cons.IH [OF c below] same first res show ?case by simp
qed

lemma constructor_copy:
  assumes "constructor config h = (g, h1)"
    and "\<forall>rs. c_models config = Some rs \<longrightarrow> (\<forall>r \<in> set rs. r < next_ref h)"
  shows "resolve h1 (g_config g) = resolve h config"
proof (cases "c_models config")
  case None
  with assms(1) show ?thesis
    by (auto simp: constructor_def clone_config_def resolve_def map_option_clone)
next
  case (Some rs)
  obtain rs' h' where m: "clone_models rs h = (rs', h')"
    by (cases "clone_models rs h")
  from assms(2) Some have "\<forall>r \<in> set rs. r < next_ref h" by simp
  from clone_models_copy [OF m this] have "map (objects h') rs' = map (objects h) rs" .
  with assms(1) Some m show ?thesis
    by (auto simp: constructor_def clone_config_def resolve_def map_option_clone)
qed

text \<open>
  Claim C9. After the constructor and \<^verbatim>\<open>parse\<close>, whether \<^verbatim>\<open>parse\<close> returns or
  throws, every model object that was allocated before the constructor ran is as it
  was: the model objects of the generator's configuration are new ones, and
  \<^verbatim>\<open>parse\<close> writes to these only. The generator's configuration starts as a copy
  with the caller's value, when the caller's references are allocated ones.
\<close>

theorem caller_configuration_is_not_mutated:
  assumes "constructor config h = (g, h1)" and "parse x g h1 = (h2, result)"
  shows "(\<forall>a < next_ref h. objects h2 a = objects h a) \<and>
         (\<forall>rs. c_models (g_config g) = Some rs \<longrightarrow> (\<forall>r \<in> set rs. next_ref h \<le> r)) \<and>
         (\<forall>a. (\<forall>rs. c_models (g_config g) = Some rs \<longrightarrow> a \<notin> set rs) \<longrightarrow>
              objects h2 a = objects h1 a) \<and>
         ((\<forall>rs. c_models config = Some rs \<longrightarrow> (\<forall>r \<in> set rs. r < next_ref h)) \<longrightarrow>
              resolve h1 (g_config g) = resolve h config)"
proof -
  obtain c' h' where cc: "clone_config config h = (c', h')"
    by (cases "clone_config config h")
  with assms(1) have g: "g_config g = c'" and h1: "h1 = h'"
    by (auto simp: constructor_def)
  from clone_config_frame [OF cc] g h1 have
    old: "\<forall>a < next_ref h. objects h1 a = objects h a"
    and fresh: "\<forall>rs. c_models (g_config g) = Some rs \<longrightarrow> (\<forall>r \<in> set rs. next_ref h \<le> r)"
    by simp_all
  have writes: "\<forall>a. (\<forall>rs. c_models (g_config g) = Some rs \<longrightarrow> a \<notin> set rs) \<longrightarrow>
              objects h2 a = objects h1 a"
    using parse_frame [OF assms(2)] by blast
  have "\<forall>a < next_ref h. objects h2 a = objects h a"
  proof (intro allI impI)
    fix a assume a: "a < next_ref h"
    with fresh have "\<forall>rs. c_models (g_config g) = Some rs \<longrightarrow> a \<notin> set rs" by fastforce
    with writes have "objects h2 a = objects h1 a" by blast
    with old a show "objects h2 a = objects h a" by simp
  qed
  moreover have "(\<forall>rs. c_models config = Some rs \<longrightarrow> (\<forall>r \<in> set rs. r < next_ref h)) \<longrightarrow>
              resolve h1 (g_config g) = resolve h config"
    using constructor_copy [OF assms(1)] by blast
  ultimately show ?thesis using fresh writes by (intro conjI)
qed

text \<open>The caller's model at reference 0 keeps its \<^verbatim>\<open>tsSchema\<close>; the generator's copy
  at reference 1 has lost it to the derived schema.\<close>

theorem caller_configuration_is_not_mutated_witness:
  "0 < next_ref heap_model_from_type \<and>
   c_models config_by_reference = Some [0] \<and>
   objects (fst (parse collaborators_plain
             (fst (constructor config_by_reference heap_model_from_type))
             (snd (constructor config_by_reference heap_model_from_type)))) 0 =
     objects heap_model_from_type 0 \<and>
   m_tsSchema (objects heap_model_from_type 0) \<noteq> None \<and>
   c_models (g_config (fst (constructor config_by_reference heap_model_from_type))) = Some [1] \<and>
   m_tsSchema (objects (fst (parse collaborators_plain
             (fst (constructor config_by_reference heap_model_from_type))
             (snd (constructor config_by_reference heap_model_from_type)))) 1) = None"
proof -
  have n: "0 < next_ref heap_model_from_type"
    by (simp add: heap_model_from_type_def)
  have c: "c_models config_by_reference = Some [0]"
    by (simp add: config_by_reference_def)
  have t: "m_tsSchema (objects heap_model_from_type 0) \<noteq> None"
    by (simp add: heap_model_from_type_def model_from_type_def)
  have g: "c_models (g_config (fst (constructor config_by_reference heap_model_from_type))) = Some [1]"
    by (simp add: constructor_def clone_config_def config_by_reference_def heap_model_from_type_def
        alloc_def)
  have w: "m_tsSchema (objects (fst (parse collaborators_plain
             (fst (constructor config_by_reference heap_model_from_type))
             (snd (constructor config_by_reference heap_model_from_type)))) 1) = None"
    by (simp add: parse_def constructor_def clone_config_def config_by_reference_def
      heap_model_from_type_def model_from_type_def alloc_def clone_model_def
      isIterable_def skeleton_def version_def collaborators_plain_def registerSchema_def
      cleanSchema_def setSchema_def set_prop_def Let_def)
  note frame = caller_configuration_is_not_mutated
      [where config = config_by_reference and h = heap_model_from_type and x = collaborators_plain,
       OF prod.collapse [symmetric] prod.collapse [symmetric], THEN conjunct1]
  from frame [rule_format, OF n] have "objects (fst (parse collaborators_plain
             (fst (constructor config_by_reference heap_model_from_type))
             (snd (constructor config_by_reference heap_model_from_type)))) 0 =
     objects heap_model_from_type 0"
    .
  with n c t g w show ?thesis by (intro conjI)
qed

end
